theory Spec2Isabelle
  imports Main
begin

section \<open>The web generator's interface to the randomizer\<close>

subsection \<open>Validation helpers\<close>

text \<open>
  \<^verbatim>\<open>clamp(value, min_val, max_val) = max(min_val, min(value, max_val))\<close>.
  The callers pass integers; the model is stated over any linear order.
\<close>

definition clamp :: "'a::linorder \<Rightarrow> 'a \<Rightarrow> 'a \<Rightarrow> 'a" where
  "clamp val min_val max_val = max min_val (min val max_val)"

text \<open>
  Python's \<^verbatim>\<open>str.isalnum()\<close>: every character is alphanumeric and there is at
  least one character. The per-character test is Python's Unicode table, which is not part
  of the source: it is the parameter \<open>alnum\<close>, over any character type.
\<close>

definition isalnum :: "('c \<Rightarrow> bool) \<Rightarrow> 'c list \<Rightarrow> bool" where
  "isalnum alnum s = (s \<noteq> [] \<and> list_all alnum s)"

text \<open>The name is \<open>None\<close> when Python's \<^verbatim>\<open>name is None\<close>.\<close>

definition get_character_name :: "('c \<Rightarrow> bool) \<Rightarrow> 'c list option \<Rightarrow> 'c list \<Rightarrow> 'c list" where
  "get_character_name alnum name default_name =
     (case name of
        None \<Rightarrow> default_name
      | Some n \<Rightarrow>
          if n = [] \<or> length n > 5 \<or> \<not> isalnum alnum n then default_name else n)"

subsection \<open>Exceptions\<close>

text \<open>
  The module defines one exception class, \<^verbatim>\<open>InvalidSettingsException\<close>. Everything
  else that can be raised is a built-in exception or one of the randomizer library, which
  does not know the module's class: library calls return \<open>py_exc + 'a\<close> and are lifted
  with \<open>liftE\<close>. A call that raises returns the exception alone; a call that returns
  gives its value and, where it changes anything, the state after it.
\<close>

datatype py_exc = KeyError | IndexError | AttributeError | FileNotFoundError | LibraryError nat

datatype error = InvalidSettingsException | Raised py_exc

definition liftE :: "py_exc + 'a \<Rightarrow> error + 'a" where
  "liftE r = (case r of Inl e \<Rightarrow> Inl (Raised e) | Inr v \<Rightarrow> Inr v)"

definition bindE :: "error + 'a \<Rightarrow> ('a \<Rightarrow> error + 'b) \<Rightarrow> error + 'b" where
  "bindE r f = (case r of Inl e \<Rightarrow> Inl e | Inr v \<Rightarrow> f v)"

subsection \<open>The settings objects of the randomizer library\<close>

text \<open>
  \<^verbatim>\<open>randosettings.GameFlags\<close> is a flag enumeration; the members are the ones the
  module names in \<^verbatim>\<open>enums_map\<close>. A flags value is a set of members, and
  \<^verbatim>\<open>GF.MYSTERY in settings.gameflags\<close> is membership.
\<close>

datatype GameFlags =
    FIX_GLITCH | BOSS_RANDO | BOSS_SCALE | ZEAL_END | FAST_PENDANT | LOCKED_CHARS
  | UNLOCKED_MAGIC | TAB_TREASURES | CHRONOSANITY | CHAR_RANDO | HEALING_ITEM_RANDO
  | GEAR_RANDO | MYSTERY | EPOCH_FAIL | DUPLICATE_CHARS | DUPLICATE_TECHS
  | UNLOCKED_SKYGATES | ADD_SUNKEEP_SPOT | ADD_BEKKLER_SPOT | ADD_CYRUS_SPOT
  | RESTORE_TOOLS | ADD_OZZIE_SPOT | RESTORE_JOHNNY_RACE | ADD_RACELOG_SPOT
  | REMOVE_BLACK_OMEN_SPOT | SPLIT_ARRIS_DOME | VANILLA_ROBO_RIBBON | VANILLA_DESERT
  | USE_ANTILIFE | TACKLE_EFFECTS_ON | STARTERS_SUFFICIENT | BUCKET_LIST | ROCKSANITY
  | TECH_DAMAGE_RANDO | VISIBLE_HEALTH | BOSS_SIGHTSCOPE | FAST_TABS | FREE_MENU_GLITCH

datatype ROFlags = BOSS_SPOT_HP | PRESERVE_PARTS

datatype CosmeticFlags =
  REDUCE_FLASH | ZENAN_ALT_MUSIC | DEATH_PEAK_ALT_MUSIC | QUIET_MODE | AUTORUN

record BucketSettings =
  num_objectives :: int

record CharSettings =
  names :: "string list"

record CTOptions =
  stereo_audio :: bool
  save_menu_cursor :: bool
  save_battle_cursor :: bool
  skill_item_info :: bool
  consistent_paging :: bool
  battle_speed :: int
  menu_background :: int
  battle_msg_speed :: int
  battle_gauge_style :: int

text \<open>The fields of \<^verbatim>\<open>randosettings.Settings\<close> that the module reads or writes.\<close>

record Settings =
  gameflags :: "GameFlags set"
  seed :: string
  bucket_settings :: BucketSettings
  char_settings :: CharSettings
  ctoptions :: CTOptions
  cosmetic_flags :: "CosmeticFlags set"

subsection \<open>The configuration object of the randomizer library\<close>

text \<open>
  The library's identifier enumerations are opaque here (numbers), but for
  \<^verbatim>\<open>BossID.TWIN_BOSS\<close>, which the module names. Python dictionaries that the
  module iterates are association lists in insertion order.
\<close>

type_synonym RecruitID = nat
type_synonym CharID = nat
type_synonym ItemID = nat
type_synonym LocID = nat
type_synonym EnemyID = nat

datatype BossID = TWIN_BOSS | OtherBoss nat

record Objective =
  desc :: string

record CharRecruit =
  held_char :: CharID

record KeyItemLocation =
  getName :: string
  getKeyItem :: ItemID

record BossPart =
  enemy_id :: EnemyID

record BossScheme =
  parts :: "BossPart list"

record EnemyStats =
  enemy_name :: string

record RandoConfig =
  objectives :: "Objective list"
  char_assign_dict :: "(RecruitID \<times> CharRecruit) list"
  key_item_locations :: "KeyItemLocation list"
  boss_assign_dict :: "(LocID \<times> BossID) list"
  boss_data_dict :: "(BossID \<times> BossScheme) list"
  enemy_dict :: "(EnemyID \<times> EnemyStats) list"

subsection \<open>The interface object and its environment\<close>

text \<open>
  Settings objects are mutable and shared: \<^verbatim>\<open>self.randomizer.settings = settings\<close>
  stores a reference. The heap maps every reference to its object. The library's
  \<^verbatim>\<open>Randomizer\<close> object has the attributes the module touches and an opaque rest.
\<close>

type_synonym ref = nat

record 'x Randomizer =
  rando_settings :: "ref option"
  rando_config :: "RandoConfig option"
  has_generated :: bool
  hash_string_bytes :: "nat list"
  opaque :: 'x

text \<open>
  The state a call runs in: the heap, the interface's \<^verbatim>\<open>self.randomizer\<close>, the
  state of Python's \<^verbatim>\<open>random\<close> module (the draws to come and how many were taken),
  the microsecond \<^verbatim>\<open>datetime.datetime.now()\<close> reads, and the file system (the
  process's working directory and the files by absolute path, a path being its list of
  components).
\<close>

record 'x state =
  heap :: "ref \<Rightarrow> Settings"
  next_ref :: ref
  randomizer :: "'x Randomizer"
  rng :: "nat \<Rightarrow> nat"
  rng_pos :: nat
  now_microsecond :: nat
  cwd :: "string list"
  files :: "string list \<rightharpoonup> nat list"

text \<open>
  The randomizer library, as far as the module calls it. Each field is the call of that
  name; a call that can raise returns a sum. \<open>new_randomizer\<close> is the constructor
  \<^verbatim>\<open>randomizer.Randomizer(rom, is_vanilla=True, settings=settings, config=config)\<close>,
  the \<open>write\<close> calls give the text they write, and the \<open>format\<close> and \<open>str\<close> fields
  are the strings of the library's enumeration members.
\<close>

record 'x lib =
  read_names :: "py_exc + string list"
  set_random_config :: "'x state \<Rightarrow> py_exc + 'x state"
  lib_generate_rom :: "'x state \<Rightarrow> py_exc + 'x state"
  get_generated_rom :: "'x state \<Rightarrow> py_exc + nat list"
  from_preset_data :: "string \<Rightarrow> py_exc + Settings"
  get_flag_string :: "Settings \<Rightarrow> string"
  get_proof_string_from_settings_config :: "Settings \<Rightarrow> RandoConfig \<Rightarrow> py_exc + string"
  get_character_assignment :: "RandoConfig \<Rightarrow> CharID \<Rightarrow> py_exc + CharID"
  new_randomizer :: "nat list \<Rightarrow> ref \<Rightarrow> RandoConfig \<Rightarrow> 'x state \<Rightarrow> py_exc + 'x Randomizer"
  write_spoiler_log :: "'x Randomizer \<Rightarrow> 'x state \<Rightarrow> py_exc + string"
  write_json_spoiler_log :: "'x Randomizer \<Rightarrow> 'x state \<Rightarrow> py_exc + string"
  write_settings_spoilers :: "'x Randomizer \<Rightarrow> 'x state \<Rightarrow> py_exc + string"
  format_recruit :: "RecruitID \<Rightarrow> string"
  format_char :: "CharID \<Rightarrow> string"
  str_item :: "ItemID \<Rightarrow> string"
  str_loc :: "LocID \<Rightarrow> string"
  str_boss :: "BossID \<Rightarrow> string"
  str_gameflag :: "GameFlags \<Rightarrow> string"
  str_roflag :: "ROFlags \<Rightarrow> string"
  game_modes :: "string list"
  shop_prices :: "string list"
  difficulties :: "string list"
  str_difficulty_normal :: string
  str_difficulty_hard :: string
  tech_orders :: "string list"

subsection \<open>Decimal numerals\<close>

text \<open>Python's \<^verbatim>\<open>str\<close> of a natural number.\<close>

function str_nat :: "nat \<Rightarrow> string" where
  "str_nat n =
     (if n < 10 then [''0123456789'' ! n]
      else str_nat (n div 10) @ [''0123456789'' ! (n mod 10)])"
  by pat_completeness auto
termination
  by (relation "measure id") auto

declare str_nat.simps [simp del]

subsection \<open>Seeds\<close>

text \<open>
  \<^verbatim>\<open>random.choice(names)\<close> raises \<open>IndexError\<close> on an empty list and otherwise
  returns the element picked by the next draw.
\<close>

definition random_choice :: "'a list \<Rightarrow> 'x state \<Rightarrow> error + ('a \<times> 'x state)" where
  "random_choice xs w =
     (if xs = [] then Inl (Raised IndexError)
      else Inr (xs ! (rng w (rng_pos w) mod length xs), w\<lparr>rng_pos := rng_pos w + 1\<rparr>))"

text \<open>
  \<^verbatim>\<open>names = randomizer.read_names()
  return "".join(random.choice(names) for i in range(2))\<close>
\<close>

definition get_random_seed :: "'x lib \<Rightarrow> 'x state \<Rightarrow> error + (string \<times> 'x state)" where
  "get_random_seed L w =
     bindE (liftE (read_names L)) (\<lambda>nms.
     bindE (random_choice nms w) (\<lambda>(a, w1).
     bindE (random_choice nms w1) (\<lambda>(b, w2).
     Inr (a @ b, w2))))"

text \<open>
  \<^verbatim>\<open>while seed == new_seed: new_seed = self.get_random_seed()\<close>. The loop runs until a
  draw differs from the old seed, which need not happen: not returning is \<open>None\<close>.
\<close>

partial_function (option) new_seed_loop ::
  "'x lib \<Rightarrow> string \<Rightarrow> string \<Rightarrow> 'x state \<Rightarrow> (error + string \<times> 'x state) option" where
  "new_seed_loop L seed0 new_seed w =
     (if seed0 = new_seed then
        (case get_random_seed L w of
           Inl e \<Rightarrow> Some (Inl e)
         | Inr (s, w') \<Rightarrow> new_seed_loop L seed0 s w')
      else Some (Inr (new_seed, w)))"

text \<open>\<^verbatim>\<open>obj.seed = v\<close> on the object at a reference.\<close>

definition set_seed :: "ref \<Rightarrow> string \<Rightarrow> 'x state \<Rightarrow> 'x state" where
  "set_seed r v w = w\<lparr>heap := (heap w)(r := (heap w r)\<lparr>seed := v\<rparr>)\<rparr>"

text \<open>
  \<^verbatim>\<open>self.randomizer.settings.seed = v\<close>: the attribute is \<open>None\<close> until a settings
  object is stored, and an attribute of \<open>None\<close> cannot be set.
\<close>

definition set_rando_seed :: "string \<Rightarrow> 'x state \<Rightarrow> error + 'x state" where
  "set_rando_seed v w =
     (case rando_settings (randomizer w) of
        None \<Rightarrow> Inl (Raised AttributeError)
      | Some r \<Rightarrow> Inr (set_seed r v w))"

text \<open>\<^verbatim>\<open>self.randomizer.settings = settings\<close>\<close>

definition store_settings :: "ref \<Rightarrow> 'x state \<Rightarrow> 'x state" where
  "store_settings r w = w\<lparr>randomizer := (randomizer w)\<lparr>rando_settings := Some r\<rparr>\<rparr>"

text \<open>
  \<^verbatim>\<open>configure_seed_from_settings(self, settings, is_race_seed)\<close>. The result is the
  nonce and the state after the call, an exception, or \<open>None\<close> when the seed loop does not
  end.
\<close>

definition configure_seed_from_settings ::
  "'x lib \<Rightarrow> 'x state \<Rightarrow> ref \<Rightarrow> bool \<Rightarrow> (error + string \<times> 'x state) option" where
  "configure_seed_from_settings L w settings is_race_seed =
     (if MYSTERY \<in> gameflags (heap w settings) then Some (Inl InvalidSettingsException)
      else
        let w1 = store_settings settings w;
            seed0 = seed (heap w1 settings)
        in case new_seed_loop L seed0 seed0 w1 of
             None \<Rightarrow> None
           | Some (Inl e) \<Rightarrow> Some (Inl e)
           | Some (Inr (new_seed, w2)) \<Rightarrow>
               Some (let w3 = set_seed settings new_seed w2 in
                 if is_race_seed then
                   let nonce = str_nat (now_microsecond w3) in
                   bindE (set_rando_seed (new_seed @ nonce) w3) (\<lambda>w4.
                   bindE (liftE (set_random_config L w4)) (\<lambda>w5.
                   bindE (set_rando_seed new_seed w5) (\<lambda>w6.
                   Inr (nonce, w6))))
                 else
                   bindE (liftE (set_random_config L w3)) (\<lambda>w4. Inr ('''', w4))))"

subsection \<open>Seeds from the generator form\<close>

text \<open>The fields of \<^verbatim>\<open>form.cleaned_data\<close> of a \<^verbatim>\<open>GenerateForm\<close> that the module reads.\<close>

record GenerateForm =
  f_preset :: string
  f_seed :: string
  f_spoiler_log :: bool

text \<open>A new object takes the next free reference.\<close>

definition alloc :: "Settings \<Rightarrow> 'x state \<Rightarrow> ref \<times> 'x state" where
  "alloc s w = (next_ref w, w\<lparr>heap := (heap w)(next_ref w := s), next_ref := next_ref w + 1\<rparr>)"

text \<open>
  \<^verbatim>\<open>__convert_form_to_settings(cls, form)\<close>: the settings object is built by the
  library from the preset; the seed is the form's, or a random one when the form's is empty.
\<close>

definition convert_form_to_settings ::
  "'x lib \<Rightarrow> 'x state \<Rightarrow> GenerateForm \<Rightarrow> error + (ref \<times> 'x state)" where
  "convert_form_to_settings L w form =
     bindE (liftE (from_preset_data L (f_preset form))) (\<lambda>s.
       let (r, w1) = alloc s w in
       if f_seed form = '''' then
         bindE (get_random_seed L w1) (\<lambda>(sd, w2). Inr (r, set_seed r sd w2))
       else Inr (r, set_seed r (f_seed form) w1))"

text \<open>\<^verbatim>\<open>self.randomizer.settings.seed\<close>, read.\<close>

definition get_rando_seed :: "'x state \<Rightarrow> error + string" where
  "get_rando_seed w =
     (case rando_settings (randomizer w) of
        None \<Rightarrow> Inl (Raised AttributeError)
      | Some r \<Rightarrow> Inr (seed (heap w r)))"

text \<open>\<^verbatim>\<open>configure_seed_from_form(self, form)\<close>\<close>

definition configure_seed_from_form ::
  "'x lib \<Rightarrow> 'x state \<Rightarrow> GenerateForm \<Rightarrow> error + (string \<times> 'x state)" where
  "configure_seed_from_form L w form =
     bindE (convert_form_to_settings L w form) (\<lambda>(r, w1).
       let w2 = store_settings r w1 in
       if f_spoiler_log form then
         bindE (liftE (set_random_config L w2)) (\<lambda>w3. Inr ('''', w3))
       else
         let nonce = str_nat (now_microsecond w2) in
         bindE (get_rando_seed w2) (\<lambda>sd.
         bindE (set_rando_seed (sd @ nonce) w2) (\<lambda>w3.
         bindE (liftE (set_random_config L w3)) (\<lambda>w4.
         bindE (set_rando_seed sd w4) (\<lambda>w5.
         Inr (nonce, w5))))))"

subsection \<open>ROM generation and the seed hash\<close>

text \<open>
  \<^verbatim>\<open>self.randomizer.generate_rom()
  return self.randomizer.get_generated_rom()\<close>
\<close>

definition generate_rom :: "'x lib \<Rightarrow> 'x state \<Rightarrow> error + (nat list \<times> 'x state)" where
  "generate_rom L w =
     bindE (liftE (lib_generate_rom L w)) (\<lambda>w1.
     bindE (liftE (get_generated_rom L w1)) (\<lambda>rom.
     Inr (rom, w1)))"

definition get_seed_hash :: "'x lib \<Rightarrow> 'x state \<Rightarrow> error + (nat list \<times> 'x state)" where
  "get_seed_hash L w =
     (if \<not> has_generated (randomizer w) then
        bindE (generate_rom L w) (\<lambda>(rom, w1). Inr (hash_string_bytes (randomizer w1), w1))
      else Inr (hash_string_bytes (randomizer w), w))"

definition set_seed_hash :: "'x state \<Rightarrow> nat list \<Rightarrow> 'x state" where
  "set_seed_hash w hash_bytes =
     (if \<not> has_generated (randomizer w) then
        w\<lparr>randomizer := (randomizer w)\<lparr>hash_string_bytes := hash_bytes\<rparr>\<rparr>
      else w)"

subsection \<open>Cosmetic settings from the ROM form\<close>

text \<open>
  The fields of \<^verbatim>\<open>form.cleaned_data\<close> of a \<^verbatim>\<open>RomForm\<close>. A name or an option
  the user left out is \<open>None\<close>.
\<close>

record RomForm =
  f_reduce_flashes :: bool
  f_zenan_alt_battle_music :: bool
  f_death_peak_alt_music :: bool
  f_quiet_mode :: bool
  f_auto_run :: bool
  f_crono_name :: "string option"
  f_marle_name :: "string option"
  f_lucca_name :: "string option"
  f_robo_name :: "string option"
  f_frog_name :: "string option"
  f_ayla_name :: "string option"
  f_magus_name :: "string option"
  f_epoch_name :: "string option"
  f_stereo_audio :: "bool option"
  f_save_menu_cursor :: "bool option"
  f_save_battle_cursor :: "bool option"
  f_skill_item_info :: "bool option"
  f_consistent_paging :: "bool option"
  f_battle_speed :: "int option"
  f_background_selection :: "int option"
  f_battle_message_speed :: "int option"
  f_battle_gauge_style :: "int option"

definition cos_flag_dict :: "((RomForm \<Rightarrow> bool) \<times> CosmeticFlags) list" where
  "cos_flag_dict =
     [(f_reduce_flashes, REDUCE_FLASH),
      (f_zenan_alt_battle_music, ZENAN_ALT_MUSIC),
      (f_death_peak_alt_music, DEATH_PEAK_ALT_MUSIC),
      (f_quiet_mode, QUIET_MODE),
      (f_auto_run, AUTORUN)]"

text \<open>
  \<^verbatim>\<open>cos_flags = rset.CosmeticFlags(False)
  for name, flag in cos_flag_dict.items():
      if form.cleaned_data[name]: cos_flags |= flag\<close>
\<close>

definition form_cos_flags :: "RomForm \<Rightarrow> CosmeticFlags set" where
  "form_cos_flags form =
     foldl (\<lambda>cos_flags (field, flag). if field form then cos_flags \<union> {flag} else cos_flags)
       {} cos_flag_dict"

text \<open>\<^verbatim>\<open>settings.char_settings.names[i] = v\<close>: an index out of range raises.\<close>

definition set_char_name :: "nat \<Rightarrow> string \<Rightarrow> Settings \<Rightarrow> error + Settings" where
  "set_char_name i v s =
     (if i < length (names (char_settings s)) then
        Inr (s\<lparr>char_settings := (char_settings s)\<lparr>names := (names (char_settings s))[i := v]\<rparr>\<rparr>)
      else Inl (Raised IndexError))"

text \<open>
  The in-game options. \<^verbatim>\<open>if form.cleaned_data['battle_speed']:\<close> is false for
  \<open>None\<close> and for \<open>0\<close>; the Boolean options and the gauge style test \<^verbatim>\<open>is not None\<close>.
\<close>

definition apply_ctoptions :: "RomForm \<Rightarrow> CTOptions \<Rightarrow> CTOptions" where
  "apply_ctoptions form o0 =
     (let o1 = (case f_stereo_audio form of None \<Rightarrow> o0 | Some b \<Rightarrow> o0\<lparr>stereo_audio := b\<rparr>);
          o2 = (case f_save_menu_cursor form of None \<Rightarrow> o1 | Some b \<Rightarrow> o1\<lparr>save_menu_cursor := b\<rparr>);
          o3 = (case f_save_battle_cursor form of None \<Rightarrow> o2
                | Some b \<Rightarrow> o2\<lparr>save_battle_cursor := b\<rparr>);
          o4 = (case f_skill_item_info form of None \<Rightarrow> o3 | Some b \<Rightarrow> o3\<lparr>skill_item_info := b\<rparr>);
          o5 = (case f_consistent_paging form of None \<Rightarrow> o4
                | Some b \<Rightarrow> o4\<lparr>consistent_paging := b\<rparr>);
          o6 = (case f_battle_speed form of None \<Rightarrow> o5
                | Some n \<Rightarrow> if n \<noteq> 0 then o5\<lparr>battle_speed := clamp (n - 1) 0 7\<rparr> else o5);
          o7 = (case f_background_selection form of None \<Rightarrow> o6
                | Some n \<Rightarrow> if n \<noteq> 0 then o6\<lparr>menu_background := clamp (n - 1) 0 7\<rparr> else o6);
          o8 = (case f_battle_message_speed form of None \<Rightarrow> o7
                | Some n \<Rightarrow> if n \<noteq> 0 then o7\<lparr>battle_msg_speed := clamp (n - 1) 0 7\<rparr> else o7)
      in case f_battle_gauge_style form of
           None \<Rightarrow> o8
         | Some n \<Rightarrow> o8\<lparr>battle_gauge_style := clamp n 0 2\<rparr>)"

text \<open>The body of \<^verbatim>\<open>if form is not None:\<close>, on the settings object.\<close>

definition apply_rom_form :: "(char \<Rightarrow> bool) \<Rightarrow> RomForm \<Rightarrow> Settings \<Rightarrow> error + Settings" where
  "apply_rom_form alnum form s =
     (let s0 = s\<lparr>cosmetic_flags := form_cos_flags form\<rparr> in
      bindE (set_char_name 0 (get_character_name alnum (f_crono_name form) ''Crono'') s0) (\<lambda>s1.
      bindE (set_char_name 1 (get_character_name alnum (f_marle_name form) ''Marle'') s1) (\<lambda>s2.
      bindE (set_char_name 2 (get_character_name alnum (f_lucca_name form) ''Lucca'') s2) (\<lambda>s3.
      bindE (set_char_name 3 (get_character_name alnum (f_robo_name form) ''Robo'') s3) (\<lambda>s4.
      bindE (set_char_name 4 (get_character_name alnum (f_frog_name form) ''Frog'') s4) (\<lambda>s5.
      bindE (set_char_name 5 (get_character_name alnum (f_ayla_name form) ''Ayla'') s5) (\<lambda>s6.
      bindE (set_char_name 6 (get_character_name alnum (f_magus_name form) ''Magus'') s6) (\<lambda>s7.
      bindE (set_char_name 7 (get_character_name alnum (f_epoch_name form) ''Epoch'') s7) (\<lambda>s8.
      Inr (s8\<lparr>ctoptions := apply_ctoptions form (ctoptions s8)\<rparr>))))))))))"

text \<open>\<^verbatim>\<open>set_settings_and_config(self, settings, config, form)\<close>\<close>

definition set_settings_and_config ::
  "(char \<Rightarrow> bool) \<Rightarrow> 'x state \<Rightarrow> ref \<Rightarrow> RandoConfig \<Rightarrow> RomForm option \<Rightarrow> error + 'x state" where
  "set_settings_and_config alnum w settings config form =
     bindE (case form of
              None \<Rightarrow> Inr w
            | Some f \<Rightarrow>
                bindE (apply_rom_form alnum f (heap w settings)) (\<lambda>s.
                Inr (w\<lparr>heap := (heap w)(settings := s)\<rparr>)))
       (\<lambda>w1. Inr (w1\<lparr>randomizer :=
                 (randomizer w1)\<lparr>rando_settings := Some settings, rando_config := Some config\<rparr>\<rparr>))"

definition get_settings :: "'x state \<Rightarrow> ref option" where
  "get_settings w = rando_settings (randomizer w)"

definition get_config :: "'x state \<Rightarrow> RandoConfig option" where
  "get_config w = rando_config (randomizer w)"

text \<open>\<^verbatim>\<open>get_rom_name(self, share_id)\<close>\<close>

definition get_rom_name :: "'x lib \<Rightarrow> 'x state \<Rightarrow> string \<Rightarrow> error + string" where
  "get_rom_name L w share_id =
     (case rando_settings (randomizer w) of
        None \<Rightarrow> Inl (Raised AttributeError)
      | Some r \<Rightarrow>
          if MYSTERY \<in> gameflags (heap w r) then Inr (''ctjot_mystery_'' @ share_id @ ''.sfc'')
          else Inr (''ctjot_'' @ get_flag_string L (heap w r) @ ''_'' @ share_id @ ''.sfc''))"

subsection \<open>The base ROM\<close>

text \<open>
  The module adds the randomizer to the import path below the site's base directory:
  \<^verbatim>\<open>os.path.join(conf.BASE_DIR, 'jetsoftime', 'sourcefiles')\<close>.
\<close>

definition sourcefiles_path :: "string list \<Rightarrow> string list" where
  "sourcefiles_path base_dir = base_dir @ [''jetsoftime'', ''sourcefiles'']"

text \<open>
  \<^verbatim>\<open>with open(str("ct.sfc"), 'rb') as infile: rom = bytearray(infile.read())\<close>.
  The relative name is resolved against the working directory of the process.
\<close>

definition get_base_rom :: "'x state \<Rightarrow> error + nat list" where
  "get_base_rom w =
     (case files w (cwd w @ [''ct.sfc'']) of
        None \<Rightarrow> Inl (Raised FileNotFoundError)
      | Some rom \<Rightarrow> Inr rom)"

subsection \<open>Spoiler logs and share details from the library\<close>

text \<open>\<^verbatim>\<open>if hash_bytes is not None: rando.hash_string_bytes = hash_bytes\<close>\<close>

definition with_hash :: "nat list option \<Rightarrow> 'x Randomizer \<Rightarrow> 'x Randomizer" where
  "with_hash hash_bytes rando =
     (case hash_bytes of None \<Rightarrow> rando | Some h \<Rightarrow> rando\<lparr>hash_string_bytes := h\<rparr>)"

text \<open>
  \<^verbatim>\<open>get_spoiler_log(cls, config, settings, hash_bytes)\<close>: a randomizer is built on the
  base ROM and writes the log into a string buffer; the result is the buffer's text.
\<close>

definition get_spoiler_log ::
  "'x lib \<Rightarrow> 'x state \<Rightarrow> RandoConfig \<Rightarrow> ref \<Rightarrow> nat list option \<Rightarrow> error + string" where
  "get_spoiler_log L w config settings hash_bytes =
     bindE (get_base_rom w) (\<lambda>rom.
     bindE (liftE (new_randomizer L rom settings config w)) (\<lambda>rando.
     liftE (write_spoiler_log L (with_hash hash_bytes rando) w)))"

definition get_json_spoiler_log ::
  "'x lib \<Rightarrow> 'x state \<Rightarrow> RandoConfig \<Rightarrow> ref \<Rightarrow> nat list option \<Rightarrow> error + string" where
  "get_json_spoiler_log L w config settings hash_bytes =
     bindE (get_base_rom w) (\<lambda>rom.
     bindE (liftE (new_randomizer L rom settings config w)) (\<lambda>rando.
     liftE (write_json_spoiler_log L (with_hash hash_bytes rando) w)))"

text \<open>
  \<^verbatim>\<open>get_share_details(cls, config, settings, hash_bytes)\<close>: for a mystery seed the text
  is one line; otherwise it is the seed and the library's settings spoilers.
\<close>

definition get_share_details ::
  "'x lib \<Rightarrow> 'x state \<Rightarrow> RandoConfig \<Rightarrow> ref \<Rightarrow> nat list option \<Rightarrow> error + string" where
  "get_share_details L w config settings hash_bytes =
     bindE (get_base_rom w) (\<lambda>rom.
     bindE (liftE (new_randomizer L rom settings config w)) (\<lambda>rando.
       let rando1 = with_hash hash_bytes rando in
       if MYSTERY \<in> gameflags (heap w settings) then Inr (''Mystery seed!'' @ [CHR 0x0A])
       else
         bindE (liftE (write_settings_spoilers L rando1 w)) (\<lambda>spoilers.
         Inr (''Seed: '' @ seed (heap w settings) @ [CHR 0x0A] @ spoilers))))"

subsection \<open>Lines and the sphere pattern\<close>

text \<open>
  Strings are lists of 8-bit characters, read as the code points below 256. The line
  boundaries of \<^verbatim>\<open>str.splitlines()\<close> in that range are LF, VT, FF, CR, FS, GS, RS and
  NEL, and CR LF counts as one. The last line needs no boundary after it.
\<close>

definition linebreak :: "char \<Rightarrow> bool" where
  "linebreak c = ((of_char c :: nat) \<in> set [10, 11, 12, 13, 28, 29, 30, 133])"

fun splitlines_from :: "string \<Rightarrow> string \<Rightarrow> string list" where
  "splitlines_from cur [] = (if cur = [] then [] else [cur])"
| "splitlines_from cur [c] = (if linebreak c then [cur] else [cur @ [c]])"
| "splitlines_from cur (c # d # cs) =
     (if c = CHR 0x0D \<and> d = CHR 0x0A then cur # splitlines_from [] cs
      else if linebreak c then cur # splitlines_from [] (d # cs)
      else splitlines_from (cur @ [c]) (d # cs))"

definition splitlines :: "string \<Rightarrow> string list" where
  "splitlines s = splitlines_from [] s"

text \<open>
  The pattern \<^verbatim>\<open>((?P<sphere>GO|(\d?)):\s*)?(?P<desc>.+)\<close>, matched the way a
  backtracking matcher does. \<^verbatim>\<open>\d\<close> and \<^verbatim>\<open>\s\<close> are the digits and the white
  space among the code points below 256; \<^verbatim>\<open>.\<close> is any character but LF.
\<close>

definition re_digit :: "char \<Rightarrow> bool" where
  "re_digit c = (48 \<le> (of_char c :: nat) \<and> (of_char c :: nat) \<le> 57)"

definition re_space :: "char \<Rightarrow> bool" where
  "re_space c = ((of_char c :: nat) \<in> set [9, 10, 11, 12, 13, 28, 29, 30, 31, 32, 133, 160])"

text \<open>\<^verbatim>\<open>.+\<close>: the longest run of characters other than LF, which must not be empty.\<close>

definition dot_plus :: "string \<Rightarrow> string option" where
  "dot_plus t = (let d = takeWhile (\<lambda>c. c \<noteq> CHR 0x0A) t in if d = [] then None else Some d)"

text \<open>
  \<^verbatim>\<open>\s*(?P<desc>.+)\<close> with \<^verbatim>\<open>\s*\<close> taking \<open>k\<close> characters: when the description
  does not match after them, the matcher gives one back and tries again.
\<close>

fun space_then_desc :: "nat \<Rightarrow> string \<Rightarrow> string option" where
  "space_then_desc 0 t = dot_plus t"
| "space_then_desc (Suc k) t =
     (case dot_plus (drop (Suc k) t) of
        Some d \<Rightarrow> Some d
      | None \<Rightarrow> space_then_desc k t)"

definition after_colon :: "string \<Rightarrow> string option" where
  "after_colon t = space_then_desc (length (takeWhile re_space t)) t"

definition orelse :: "'a option \<Rightarrow> 'a option \<Rightarrow> 'a option" where
  "orelse a b = (case a of Some x \<Rightarrow> Some x | None \<Rightarrow> b)"

text \<open>
  The optional group: \<^verbatim>\<open>GO\<close>, or one digit, or no digit, then the colon. The result is
  the sphere and the description.
\<close>

definition sphere_group :: "string \<Rightarrow> (string \<times> string) option" where
  "sphere_group t =
     orelse (if take 3 t = ''GO:'' then map_option (Pair ''GO'') (after_colon (drop 3 t))
             else None)
    (orelse (case t of
               c # d # rest \<Rightarrow>
                 if re_digit c \<and> d = CHR '':'' then map_option (Pair [c]) (after_colon rest)
                 else None
             | _ \<Rightarrow> None)
            (case t of
               c # rest \<Rightarrow>
                 if c = CHR '':'' then map_option (Pair []) (after_colon rest) else None
             | [] \<Rightarrow> None))"

text \<open>A match at the start of \<open>t\<close>: with the group, or without it (the sphere is \<open>None\<close>).\<close>

definition match_at :: "string \<Rightarrow> (string option \<times> string) option" where
  "match_at t =
     (case sphere_group t of
        Some (sph, d) \<Rightarrow> Some (Some sph, d)
      | None \<Rightarrow> map_option (Pair None) (dot_plus t))"

text \<open>\<^verbatim>\<open>rgx.search(line)\<close>: the match at the first position that has one.\<close>

fun rgx_search :: "string \<Rightarrow> (string option \<times> string) option" where
  "rgx_search [] = None"
| "rgx_search (c # cs) =
     (case match_at (c # cs) of
        Some m \<Rightarrow> Some m
      | None \<Rightarrow> rgx_search cs)"

subsection \<open>The web spoiler log\<close>

text \<open>
  An entry of the log is a small dictionary of strings; a group that took no part in a
  match is \<open>None\<close>. The log maps its keys to lists of entries.
\<close>

type_synonym entry = "(string \<times> string option) list"

type_synonym spoiler = "string \<rightharpoonup> entry list"

definition groupdict :: "string option \<times> string \<Rightarrow> entry" where
  "groupdict m = [(''sphere'', fst m), (''desc'', Some (snd m))]"

text \<open>\<^verbatim>\<open>spoiler_log[key].append(x)\<close>\<close>

definition dict_append :: "spoiler \<Rightarrow> string \<Rightarrow> entry \<Rightarrow> error + spoiler" where
  "dict_append d key x =
     (case d key of
        None \<Rightarrow> Inl (Raised KeyError)
      | Some xs \<Rightarrow> Inr (d(key \<mapsto> xs @ [x])))"

text \<open>\<^verbatim>\<open>d[key]\<close> on a dictionary given by its items.\<close>

definition lookup :: "('k \<times> 'v) list \<Rightarrow> 'k \<Rightarrow> error + 'v" where
  "lookup d key = (case map_of d key of None \<Rightarrow> Inl (Raised KeyError) | Some v \<Rightarrow> Inr v)"

text \<open>A \<^verbatim>\<open>for\<close> loop over a list whose body updates the log or raises.\<close>

fun for_each :: "('a \<Rightarrow> 's \<Rightarrow> error + 's) \<Rightarrow> 'a list \<Rightarrow> 's \<Rightarrow> error + 's" where
  "for_each body [] d = Inr d"
| "for_each body (x # xs) d = bindE (body x d) (for_each body xs)"

text \<open>
  \<^verbatim>\<open>for ind, objective in enumerate(config.objectives):
      if ind >= num_objs: break
      spoiler_log['objectives'].append({'name': str(f"Objective {ind+1}"), 'desc': objective.desc})\<close>
\<close>

fun objectives_loop :: "int \<Rightarrow> nat \<Rightarrow> Objective list \<Rightarrow> spoiler \<Rightarrow> error + spoiler" where
  "objectives_loop num_objs ind [] d = Inr d"
| "objectives_loop num_objs ind (objective # rest) d =
     (if int ind \<ge> num_objs then Inr d
      else
        bindE (dict_append d ''objectives''
                 [(''name'', Some (''Objective '' @ str_nat (ind + 1))),
                  (''desc'', Some (desc objective))])
          (objectives_loop num_objs (Suc ind) rest))"

definition character_entry ::
  "'x lib \<Rightarrow> RandoConfig \<Rightarrow> RecruitID \<Rightarrow> spoiler \<Rightarrow> error + spoiler" where
  "character_entry L config recruit_spot d =
     bindE (lookup (char_assign_dict config) recruit_spot) (\<lambda>recruit.
       let held = held_char recruit in
       bindE (liftE (get_character_assignment L config held)) (\<lambda>reassign_char.
       dict_append d ''characters''
         [(''location'', Some (format_recruit L recruit_spot)),
          (''character'', Some (format_char L held)),
          (''reassign'', Some (format_char L reassign_char))]))"

definition key_item_entry :: "'x lib \<Rightarrow> KeyItemLocation \<Rightarrow> spoiler \<Rightarrow> error + spoiler" where
  "key_item_entry L location d =
     dict_append d ''key_items''
       [(''location'', Some (getName location)),
        (''key'', Some (str_item L (getKeyItem location)))]"

text \<open>
  \<^verbatim>\<open>twin_type = config.boss_data_dict[rotypes.BossID.TWIN_BOSS].parts[0].enemy_id
  twin_name = config.enemy_dict[twin_type].name\<close>
\<close>

definition twin_boss_str :: "RandoConfig \<Rightarrow> error + string" where
  "twin_boss_str config =
     bindE (lookup (boss_data_dict config) TWIN_BOSS) (\<lambda>scheme.
       case parts scheme of
         [] \<Rightarrow> Inl (Raised IndexError)
       | part # _ \<Rightarrow>
           bindE (lookup (enemy_dict config) (enemy_id part)) (\<lambda>stats.
           Inr (''Twin '' @ enemy_name stats)))"

definition boss_entry :: "'x lib \<Rightarrow> RandoConfig \<Rightarrow> LocID \<Rightarrow> spoiler \<Rightarrow> error + spoiler" where
  "boss_entry L config location d =
     bindE (lookup (boss_assign_dict config) location) (\<lambda>boss.
     bindE (if boss = TWIN_BOSS then twin_boss_str config else Inr (str_boss L boss)) (\<lambda>boss_str.
     dict_append d ''bosses''
       [(''location'', Some (str_loc L location)), (''boss'', Some boss_str)]))"

definition sphere_entry :: "string \<Rightarrow> spoiler \<Rightarrow> error + spoiler" where
  "sphere_entry line d =
     (case rgx_search line of
        None \<Rightarrow> Inr d
      | Some m \<Rightarrow> dict_append d ''spheres'' (groupdict m))"

definition empty_spoiler_log :: spoiler where
  "empty_spoiler_log =
     [''characters'' \<mapsto> [], ''key_items'' \<mapsto> [], ''bosses'' \<mapsto> [], ''objectives'' \<mapsto> [],
      ''spheres'' \<mapsto> []]"

text \<open>\<^verbatim>\<open>get_web_spoiler_log(settings, config)\<close>\<close>

definition get_web_spoiler_log :: "'x lib \<Rightarrow> Settings \<Rightarrow> RandoConfig \<Rightarrow> error + spoiler" where
  "get_web_spoiler_log L settings config =
     bindE (if BUCKET_LIST \<in> gameflags settings then
              objectives_loop (num_objectives (bucket_settings settings)) 0 (objectives config)
                empty_spoiler_log
            else Inr empty_spoiler_log) (\<lambda>d1.
     bindE (for_each (character_entry L config) (map fst (char_assign_dict config)) d1) (\<lambda>d2.
     bindE (for_each (key_item_entry L) (key_item_locations config) d2) (\<lambda>d3.
     bindE (for_each (boss_entry L config) (map fst (boss_assign_dict config)) d3) (\<lambda>d4.
     bindE (liftE (get_proof_string_from_settings_config L settings config)) (\<lambda>spheres.
     for_each sphere_entry (splitlines spheres) d4)))))"

subsection \<open>The enumeration maps\<close>

text \<open>
  A value of \<^verbatim>\<open>enums_map\<close> is a list of strings or a dictionary from form values to
  the strings of the library's enumeration members. The strings come from the library.
\<close>

datatype enum_entry = EnumList "string list" | EnumDict "(string \<times> string) list"

definition enums_map :: "'x lib \<Rightarrow> (string \<times> enum_entry) list" where
  "enums_map L =
     [(''game_mode'', EnumList (game_modes L)),
      (''shopprices'', EnumList (shop_prices L)),
      (''item_difficulty'', EnumList (difficulties L)),
      (''enemy_difficulty'', EnumList [str_difficulty_normal L, str_difficulty_hard L]),
      (''techorder'', EnumList (tech_orders L)),
      (''gameflags'', EnumDict
        [(''disable_glitches'', str_gameflag L FIX_GLITCH),
         (''boss_rando'', str_gameflag L BOSS_RANDO),
         (''boss_scaling'', str_gameflag L BOSS_SCALE),
         (''zeal'', str_gameflag L ZEAL_END),
         (''early_pendant'', str_gameflag L FAST_PENDANT),
         (''locked_chars'', str_gameflag L LOCKED_CHARS),
         (''unlocked_magic'', str_gameflag L UNLOCKED_MAGIC),
         (''tab_treasures'', str_gameflag L TAB_TREASURES),
         (''chronosanity'', str_gameflag L CHRONOSANITY),
         (''char_rando'', str_gameflag L CHAR_RANDO),
         (''healing_item_rando'', str_gameflag L HEALING_ITEM_RANDO),
         (''gear_rando'', str_gameflag L GEAR_RANDO),
         (''mystery_seed'', str_gameflag L MYSTERY),
         (''epoch_fail'', str_gameflag L EPOCH_FAIL),
         (''duplicate_characters'', str_gameflag L DUPLICATE_CHARS),
         (''duplicate_duals'', str_gameflag L DUPLICATE_TECHS),
         (''unlocked_skyways'', str_gameflag L UNLOCKED_SKYGATES),
         (''add_sunkeep_spot'', str_gameflag L ADD_SUNKEEP_SPOT),
         (''add_bekkler_spot'', str_gameflag L ADD_BEKKLER_SPOT),
         (''add_cyrus_spot'', str_gameflag L ADD_CYRUS_SPOT),
         (''restore_tools'', str_gameflag L RESTORE_TOOLS),
         (''add_ozzie_spot'', str_gameflag L ADD_OZZIE_SPOT),
         (''restore_johnny_race'', str_gameflag L RESTORE_JOHNNY_RACE),
         (''add_racelog_spot'', str_gameflag L ADD_RACELOG_SPOT),
         (''remove_black_omen_spot'', str_gameflag L REMOVE_BLACK_OMEN_SPOT),
         (''split_arris_dome'', str_gameflag L SPLIT_ARRIS_DOME),
         (''vanilla_robo_ribbon'', str_gameflag L VANILLA_ROBO_RIBBON),
         (''vanilla_desert'', str_gameflag L VANILLA_DESERT),
         (''use_antilife'', str_gameflag L USE_ANTILIFE),
         (''tackle_effects'', str_gameflag L TACKLE_EFFECTS_ON),
         (''starters_sufficient'', str_gameflag L STARTERS_SUFFICIENT),
         (''bucket_list'', str_gameflag L BUCKET_LIST),
         (''rocksanity'', str_gameflag L ROCKSANITY),
         (''tech_damage_rando'', str_gameflag L TECH_DAMAGE_RANDO),
         (''sightscope_always_on'', str_gameflag L VISIBLE_HEALTH),
         (''boss_sightscope'', str_gameflag L BOSS_SIGHTSCOPE),
         (''fast_tabs'', str_gameflag L FAST_TABS),
         (''free_menu_glitch'', str_gameflag L FREE_MENU_GLITCH)]),
      (''roflags'', EnumDict
        [(''boss_spot_hp'', str_roflag L BOSS_SPOT_HP),
         (''legacy_boss_placement'', str_roflag L PRESERVE_PARTS)])]"

definition get_enums_map :: "'x lib \<Rightarrow> (string \<times> enum_entry) list" where
  "get_enums_map L = enums_map L"

text \<open>
  \<^verbatim>\<open>{str(v): k for k, v in mapping.items()}\<close>: the entries are stored in order, a later
  one replacing an earlier one with the same key.
\<close>

definition invert_dict :: "(string \<times> string) list \<Rightarrow> (string \<rightharpoonup> string)" where
  "invert_dict mapping = foldl (\<lambda>m (k, v). m(v \<mapsto> k)) Map.empty mapping"

text \<open>
  \<^verbatim>\<open>{key: {...} for key, mapping in enums_map.items() if isinstance(mapping, Dict)}\<close>
\<close>

definition invert_enums :: "(string \<times> enum_entry) list \<Rightarrow> (string \<rightharpoonup> (string \<rightharpoonup> string))" where
  "invert_enums em =
     foldl (\<lambda>m (key, mapping).
              case mapping of EnumDict d \<Rightarrow> m(key \<mapsto> invert_dict d) | EnumList l \<Rightarrow> m)
       Map.empty em"

definition get_inv_enums_map :: "'x lib \<Rightarrow> (string \<rightharpoonup> (string \<rightharpoonup> string))" where
  "get_inv_enums_map L = invert_enums (enums_map L)"

subsection \<open>Reading results\<close>

text \<open>The settings object at a reference after a call that returned, and nothing otherwise.\<close>

definition settings_after :: "(error + 'a \<times> 'x state) option \<Rightarrow> ref \<Rightarrow> Settings option" where
  "settings_after res r =
     (case res of
        Some (Inr (v, w)) \<Rightarrow> Some (heap w r)
      | _ \<Rightarrow> None)"

text \<open>The \<^verbatim>\<open>'objectives'\<close> list of a returned spoiler log.\<close>

definition objectives_of :: "error + spoiler \<Rightarrow> entry list option" where
  "objectives_of res = (case res of Inl e \<Rightarrow> None | Inr d \<Rightarrow> d ''objectives'')"

subsection \<open>Invariants of the spoiler log\<close>

text \<open>A log that has the keys and the \<open>objectives\<close> list of another, as the loops after the
  objectives leave them.\<close>

definition keeps :: "spoiler \<Rightarrow> spoiler \<Rightarrow> bool" where
  "keeps d0 d = (dom d = dom d0 \<and> d ''objectives'' = d0 ''objectives'')"

text \<open>
  The entries of the list so far are numbered from one, and there are no more of them
  than \<open>num_objs\<close> allows.
\<close>

definition numbered :: "int \<Rightarrow> entry list \<Rightarrow> bool" where
  "numbered num_objs xs =
     (int (length xs) \<le> max 0 num_objs \<and>
      list_all (\<lambda>i. map_of (xs ! i) ''name'' = Some (Some (''Objective '' @ str_nat (i + 1))))
        [0..<length xs])"

subsection \<open>Example inputs\<close>

text \<open>The letters and digits of ASCII, as one instance of the per-character test.\<close>

definition ascii_alnum :: "char \<Rightarrow> bool" where
  "ascii_alnum c =
     (let n = (of_char c :: nat)
      in (48 \<le> n \<and> n \<le> 57) \<or> (65 \<le> n \<and> n \<le> 90) \<or> (97 \<le> n \<and> n \<le> 122))"

definition demo_settings :: Settings where
  "demo_settings =
     \<lparr>gameflags = {BUCKET_LIST, FAST_TABS},
      seed = ''aa'',
      bucket_settings = \<lparr>num_objectives = 2\<rparr>,
      char_settings =
        \<lparr>names = [''Crono'', ''Marle'', ''Lucca'', ''Robo'', ''Frog'', ''Ayla'', ''Magus'', ''Epoch'']\<rparr>,
      ctoptions =
        \<lparr>stereo_audio = True, save_menu_cursor = False, save_battle_cursor = False,
         skill_item_info = True, consistent_paging = False, battle_speed = 4,
         menu_background = 0, battle_msg_speed = 4, battle_gauge_style = 1\<rparr>,
      cosmetic_flags = {}\<rparr>"

definition mystery_settings :: Settings where
  "mystery_settings = demo_settings\<lparr>gameflags := {MYSTERY, FAST_TABS}\<rparr>"

definition negative_settings :: Settings where
  "negative_settings = demo_settings\<lparr>bucket_settings := \<lparr>num_objectives = - 1\<rparr>\<rparr>"

definition demo_config :: RandoConfig where
  "demo_config =
     \<lparr>objectives =
        [\<lparr>desc = ''Defeat Magus''\<rparr>, \<lparr>desc = ''Recruit Robo''\<rparr>, \<lparr>desc = ''Find the Gate Key''\<rparr>],
      char_assign_dict = [(0, \<lparr>held_char = 3\<rparr>)],
      key_item_locations = [\<lparr>getName = ''Zenan Bridge'', getKeyItem = 5\<rparr>],
      boss_assign_dict = [(1, TWIN_BOSS), (2, OtherBoss 4)],
      boss_data_dict = [(TWIN_BOSS, \<lparr>parts = [\<lparr>enemy_id = 9\<rparr>]\<rparr>)],
      enemy_dict = [(9, \<lparr>enemy_name = ''Golem''\<rparr>)]\<rparr>"

text \<open>
  A library whose calls all succeed: the names file holds two names, generating a
  configuration stores one and leaves the settings alone.
\<close>

definition demo_lib :: "unit lib" where
  "demo_lib =
     \<lparr>read_names = Inr [''a'', ''b''],
      set_random_config =
        (\<lambda>w. Inr (w\<lparr>randomizer := (randomizer w)\<lparr>rando_config := Some demo_config\<rparr>\<rparr>)),
      lib_generate_rom = (\<lambda>w. Inr (w\<lparr>randomizer := (randomizer w)\<lparr>has_generated := True\<rparr>\<rparr>)),
      get_generated_rom = (\<lambda>w. Inr [1, 2, 3]),
      from_preset_data = (\<lambda>p. Inr demo_settings),
      get_flag_string = (\<lambda>s. ''flags''),
      get_proof_string_from_settings_config =
        (\<lambda>s c. Inr (''GO: Crono'' @ [CHR 0x0A] @ ''1: Gate Key'' @ [CHR 0x0A, CHR 0x0A] @ ''done'')),
      get_character_assignment = (\<lambda>c ch. Inr ch),
      new_randomizer =
        (\<lambda>rom r c w. Inr \<lparr>rando_settings = Some r, rando_config = Some c, has_generated = False,
           hash_string_bytes = [], opaque = ()\<rparr>),
      write_spoiler_log = (\<lambda>rando w. Inr ''spoilers''),
      write_json_spoiler_log = (\<lambda>rando w. Inr ''{}''),
      write_settings_spoilers = (\<lambda>rando w. Inr ''settings''),
      format_recruit = str_nat,
      format_char = str_nat,
      str_item = str_nat,
      str_loc = str_nat,
      str_boss = (\<lambda>b. case b of TWIN_BOSS \<Rightarrow> ''Twin Boss'' | OtherBoss n \<Rightarrow> str_nat n),
      str_gameflag = (\<lambda>f. ''GameFlags''),
      str_roflag =
        (\<lambda>f. case f of BOSS_SPOT_HP \<Rightarrow> ''ROFlags.BOSS_SPOT_HP''
              | PRESERVE_PARTS \<Rightarrow> ''ROFlags.PRESERVE_PARTS''),
      game_modes = [''GameMode.STANDARD''],
      shop_prices = [''ShopPrices.NORMAL''],
      difficulties = [''Difficulty.EASY'', ''Difficulty.NORMAL'', ''Difficulty.HARD''],
      str_difficulty_normal = ''Difficulty.NORMAL'',
      str_difficulty_hard = ''Difficulty.HARD'',
      tech_orders = [''TechOrder.NORMAL'']\<rparr>"

text \<open>
  A state whose process runs in \<^verbatim>\<open>/tmp\<close>, while the site's base directory
  \<^verbatim>\<open>/srv/app\<close> holds the ROM.
\<close>

definition demo_base_dir :: "string list" where
  "demo_base_dir = [''srv'', ''app'']"

definition demo_state :: "unit state" where
  "demo_state =
     \<lparr>heap = (\<lambda>r. if r = 1 then mystery_settings else demo_settings),
      next_ref = 2,
      randomizer =
        \<lparr>rando_settings = None, rando_config = None, has_generated = False,
         hash_string_bytes = [], opaque = ()\<rparr>,
      rng = (\<lambda>i. i),
      rng_pos = 0,
      now_microsecond = 123456,
      cwd = [''tmp''],
      files = [[''srv'', ''app'', ''ct.sfc''] \<mapsto> [1, 2, 3]]\<rparr>"

section \<open>Properties\<close>

text \<open>
  C2. For bounds \<open>lo \<le> hi\<close>, \<open>clamp value lo hi\<close> is \<open>lo\<close> when \<open>value < lo\<close>,
  \<open>hi\<close> when \<open>value > hi\<close>, and \<open>value\<close> otherwise.
\<close>

theorem clamp_cases:
  assumes "lo \<le> hi"
  shows "clamp v lo hi = (if v < lo then lo else if hi < v then hi else v)"
  using assms by (auto simp: clamp_def max_def min_def)

theorem clamp_cases_witness:
  "clamp (9::int) 0 7 = 7 \<and> clamp (-1::int) 0 7 = 0 \<and> clamp (3::int) 0 7 = 3"
  using clamp_cases [of "0::int" 7 9] clamp_cases [of "0::int" 7 "-1"]
    clamp_cases [of "0::int" 7 3]
  by simp

subsection \<open>Exceptions through the plumbing\<close>

lemma bindE_Inl: "bindE (Inl e) f = Inl e"
  by (simp add: bindE_def)

lemma bindE_Inr: "bindE (Inr v) f = f v"
  by (simp add: bindE_def)

lemma liftE_Inl: "liftE (Inl e) = Inl (Raised e)"
  by (simp add: liftE_def)

lemma liftE_Inr: "liftE (Inr v) = Inr v"
  by (simp add: liftE_def)

lemma bindE_eq_Inr: "bindE r f = Inr y \<longleftrightarrow> (\<exists>v. r = Inr v \<and> f v = Inr y)"
  by (cases r) (simp_all add: bindE_def)


lemma liftE_valid: "liftE r \<noteq> Inl InvalidSettingsException"
  by (cases r) (simp_all add: liftE_def)

lemma bindE_valid:
  assumes "r \<noteq> Inl InvalidSettingsException"
    and "\<And>v. r = Inr v \<Longrightarrow> f v \<noteq> Inl InvalidSettingsException"
  shows "bindE r f \<noteq> Inl InvalidSettingsException"
  using assms by (cases r) (simp_all add: bindE_def)

lemma bindE_eq_invalid:
  "bindE r f = Inl InvalidSettingsException \<longleftrightarrow>
     r = Inl InvalidSettingsException \<or> (\<exists>v. r = Inr v \<and> f v = Inl InvalidSettingsException)"
  by (cases r) (simp_all add: bindE_def)

subsection \<open>The seed loop\<close>

lemma random_choice_valid: "random_choice xs w \<noteq> Inl InvalidSettingsException"
  by (simp add: random_choice_def)

lemma random_choice_frame:
  assumes "random_choice xs w = Inr (a, w')"
  shows "heap w' = heap w \<and> randomizer w' = randomizer w \<and> now_microsecond w' = now_microsecond w"
  using assms by (auto simp: random_choice_def split: if_splits)

lemma get_random_seed_valid: "get_random_seed L w \<noteq> Inl InvalidSettingsException"
  by (simp add: get_random_seed_def bindE_def liftE_def random_choice_def
      split: sum.splits prod.splits)

lemma get_random_seed_frame:
  assumes "get_random_seed L w = Inr (s, w')"
  shows "heap w' = heap w \<and> randomizer w' = randomizer w \<and> now_microsecond w' = now_microsecond w"
  using assms
  by (auto simp: get_random_seed_def bindE_def liftE_def random_choice_def
      split: sum.splits if_splits)

text \<open>One turn of the loop, for running it on a given input.\<close>

lemma new_seed_loop_done:
  "seed0 \<noteq> new_seed \<Longrightarrow> new_seed_loop L seed0 new_seed w = Some (Inr (new_seed, w))"
  by (subst new_seed_loop.simps) simp

lemma new_seed_loop_again:
  "get_random_seed L w = Inr (s, w') \<Longrightarrow>
   new_seed_loop L seed0 seed0 w = new_seed_loop L seed0 s w'"
  by (subst new_seed_loop.simps) simp

lemma new_seed_loop_raise:
  "get_random_seed L w = Inl e \<Longrightarrow> new_seed_loop L seed0 seed0 w = Some (Inl e)"
  by (subst new_seed_loop.simps) simp

text \<open>
  When the loop returns a seed, it differs from the old one, and the loop has changed
  neither the heap nor the randomizer.
\<close>

lemma new_seed_loop_result:
  assumes "new_seed_loop L seed0 new_seed w = Some res"
  shows "res \<noteq> Inl InvalidSettingsException \<and>
    (\<forall>s w'. res = Inr (s, w') \<longrightarrow>
       s \<noteq> seed0 \<and> heap w' = heap w \<and> randomizer w' = randomizer w \<and>
       now_microsecond w' = now_microsecond w)"
proof (induction rule: new_seed_loop.raw_induct [OF _ assms])
  case (1 loop L seed0 new_seed w res)
  note IH = "1"(1) and body = "1"(2)
  show ?case
  proof (cases "seed0 = new_seed")
    case False
    with body have "res = Inr (new_seed, w)" by simp
    with False show ?thesis by simp
  next
    case True
    show ?thesis
    proof (cases "get_random_seed L w")
      case (Inl e)
      with True body have "res = Inl e" by simp
      moreover from Inl get_random_seed_valid [of L w] have "e \<noteq> InvalidSettingsException"
        by simp
      ultimately show ?thesis by simp
    next
      case (Inr p)
      obtain s w1 where p: "p = (s, w1)" by (cases p)
      with True Inr body have "loop L seed0 s w1 = Some res" by simp
      from IH [OF this] have
        "res \<noteq> Inl InvalidSettingsException \<and>
         (\<forall>s' w'. res = Inr (s', w') \<longrightarrow>
            s' \<noteq> seed0 \<and> heap w' = heap w1 \<and> randomizer w' = randomizer w1 \<and>
            now_microsecond w' = now_microsecond w1)" .
      moreover from Inr p get_random_seed_frame [of L w s w1] have
        "heap w1 = heap w \<and> randomizer w1 = randomizer w \<and>
         now_microsecond w1 = now_microsecond w"
        by simp
      ultimately show ?thesis by metis
    qed
  qed
qed

subsection \<open>Character names\<close>

text \<open>
  C3. A name longer than five characters, or with a character that is not alphanumeric,
  falls back to the default; a name of one to five alphanumeric characters is kept.
\<close>

theorem get_character_name_validates:
  "(length name > 5 \<or> (\<exists>c \<in> set name. \<not> alnum c)
      \<longrightarrow> get_character_name alnum (Some name) default_name = default_name) \<and>
   (1 \<le> length name \<and> length name \<le> 5 \<and> (\<forall>c \<in> set name. alnum c)
      \<longrightarrow> get_character_name alnum (Some name) default_name = name)"
  by (auto simp: get_character_name_def isalnum_def list_all_iff)

lemma ascii_alnum_examples:
  "ascii_alnum CHR ''B''" "ascii_alnum CHR ''o''" "ascii_alnum CHR ''b''" "ascii_alnum CHR ''1''"
  "\<not> ascii_alnum CHR '' ''"
  by (simp_all add: ascii_alnum_def)

theorem get_character_name_validates_witness:
  "get_character_name ascii_alnum (Some ''Chrono'') ''Crono'' = ''Crono'' \<and>
   get_character_name ascii_alnum (Some ''a b'') ''Marle'' = ''Marle'' \<and>
   get_character_name ascii_alnum (Some ''Bob1'') ''Robo'' = ''Bob1''"
  using get_character_name_validates [of "''Chrono''" ascii_alnum "''Crono''"]
    get_character_name_validates [of "''a b''" ascii_alnum "''Marle''"]
    get_character_name_validates [of "''Bob1''" ascii_alnum "''Robo''"]
  by (simp add: ascii_alnum_examples)

text \<open>
  C8. A name that is \<open>None\<close> or empty falls back to the default, although the empty name
  is not too long and has no character that is not alphanumeric.
\<close>

theorem get_character_name_missing:
  "get_character_name alnum None default_name = default_name \<and>
   get_character_name alnum (Some []) default_name = default_name \<and>
   \<not> length ([] :: 'c list) > 5 \<and> list_all alnum []"
  by (simp add: get_character_name_def)

theorem get_character_name_missing_witness:
  "get_character_name ascii_alnum None ''Frog'' = ''Frog'' \<and>
   get_character_name ascii_alnum (Some '''') ''Frog'' = ''Frog''"
  using get_character_name_missing [of ascii_alnum "''Frog''"]
  by simp

subsection \<open>The base ROM\<close>

text \<open>The file read is \<^verbatim>\<open>ct.sfc\<close> in the working directory, and it is the only one.\<close>

lemma get_base_rom_reads_cwd:
  assumes "files w (cwd w @ [''ct.sfc'']) = files w' (cwd w' @ [''ct.sfc''])"
  shows "get_base_rom w = get_base_rom w'"
  using assms by (simp add: get_base_rom_def)

lemma get_base_rom_in_base_dir:
  assumes "cwd w = base_dir"
  shows "get_base_rom w =
    (case files w (base_dir @ [''ct.sfc'']) of
       None \<Rightarrow> Inl (Raised FileNotFoundError)
     | Some rom \<Rightarrow> Inr rom)"
  using assms by (simp add: get_base_rom_def)

text \<open>
  C6. The ROM is looked up in the working directory of the process, not in the base
  directory: with the ROM in the base directory and the process started elsewhere, the
  call raises.
\<close>

theorem get_base_rom_outside_base_dir:
  "files demo_state (demo_base_dir @ [''ct.sfc'']) = Some [1, 2, 3] \<and>
   cwd demo_state = [''tmp''] \<and>
   get_base_rom demo_state = Inl (Raised FileNotFoundError)"
  by (simp add: get_base_rom_def demo_state_def demo_base_dir_def)

subsection \<open>Cosmetic settings from the ROM form\<close>

text \<open>The clamped value lies between the bounds, as the in-game options need it.\<close>

lemma clamp_in_range:
  assumes "lo \<le> hi"
  shows "lo \<le> clamp v lo hi \<and> clamp v lo hi \<le> hi"
  using assms by (auto simp: clamp_def max_def min_def)

lemma apply_ctoptions_battle_speed:
  assumes "f_battle_speed form = Some n" and "n \<noteq> 0"
  shows "battle_speed (apply_ctoptions form opts) = clamp (n - 1) 0 7"
    and "0 \<le> battle_speed (apply_ctoptions form opts)"
    and "battle_speed (apply_ctoptions form opts) \<le> 7"
  using assms clamp_in_range [of "0::int" 7 "n - 1"]
  by (simp_all add: apply_ctoptions_def Let_def split: option.splits)

lemma apply_ctoptions_battle_gauge_style:
  assumes "f_battle_gauge_style form = Some n"
  shows "battle_gauge_style (apply_ctoptions form opts) = clamp n 0 2"
    and "0 \<le> battle_gauge_style (apply_ctoptions form opts)"
    and "battle_gauge_style (apply_ctoptions form opts) \<le> 2"
  using assms clamp_in_range [of "0::int" 2 n]
  by (simp_all add: apply_ctoptions_def Let_def split: option.splits)

text \<open>
  With a form, the names of the settings are the validated names of the form, in the
  order Crono, Marle, Lucca, Robo, Frog, Ayla, Magus, Epoch; a settings object with fewer
  than eight names makes the call raise.
\<close>

lemma set_char_name_Inr:
  assumes "set_char_name i v s = Inr s'"
  shows "i < length (names (char_settings s))"
    and "names (char_settings s') = (names (char_settings s))[i := v]"
  using assms by (auto simp: set_char_name_def split: if_splits)

lemma apply_rom_form_names:
  assumes "apply_rom_form alnum form s = Inr s'"
  shows "take 8 (names (char_settings s')) =
    [get_character_name alnum (f_crono_name form) ''Crono'',
     get_character_name alnum (f_marle_name form) ''Marle'',
     get_character_name alnum (f_lucca_name form) ''Lucca'',
     get_character_name alnum (f_robo_name form) ''Robo'',
     get_character_name alnum (f_frog_name form) ''Frog'',
     get_character_name alnum (f_ayla_name form) ''Ayla'',
     get_character_name alnum (f_magus_name form) ''Magus'',
     get_character_name alnum (f_epoch_name form) ''Epoch'']"
proof -
  let ?s0 = "s\<lparr>cosmetic_flags := form_cos_flags form\<rparr>"
  from assms obtain s1 s2 s3 s4 s5 s6 s7 s8 where
    c1: "set_char_name 0 (get_character_name alnum (f_crono_name form) ''Crono'') ?s0 = Inr s1" and
    c2: "set_char_name 1 (get_character_name alnum (f_marle_name form) ''Marle'') s1 = Inr s2" and
    c3: "set_char_name 2 (get_character_name alnum (f_lucca_name form) ''Lucca'') s2 = Inr s3" and
    c4: "set_char_name 3 (get_character_name alnum (f_robo_name form) ''Robo'') s3 = Inr s4" and
    c5: "set_char_name 4 (get_character_name alnum (f_frog_name form) ''Frog'') s4 = Inr s5" and
    c6: "set_char_name 5 (get_character_name alnum (f_ayla_name form) ''Ayla'') s5 = Inr s6" and
    c7: "set_char_name 6 (get_character_name alnum (f_magus_name form) ''Magus'') s6 = Inr s7" and
    c8: "set_char_name 7 (get_character_name alnum (f_epoch_name form) ''Epoch'') s7 = Inr s8" and
    last: "s' = s8\<lparr>ctoptions := apply_ctoptions form (ctoptions s8)\<rparr>"
    unfolding apply_rom_form_def Let_def bindE_eq_Inr by blast
  note n = set_char_name_Inr(2) [OF c1] set_char_name_Inr(2) [OF c2] set_char_name_Inr(2) [OF c3]
    set_char_name_Inr(2) [OF c4] set_char_name_Inr(2) [OF c5] set_char_name_Inr(2) [OF c6]
    set_char_name_Inr(2) [OF c7] set_char_name_Inr(2) [OF c8]
  from set_char_name_Inr(1) [OF c8] n have "Suc (Suc (Suc (Suc (Suc (Suc (Suc (Suc 0)))))))
      \<le> length (names (char_settings s))"
    by simp
  then obtain x0 x1 x2 x3 x4 x5 x6 x7 rest where
    "names (char_settings s) = x0 # x1 # x2 # x3 # x4 # x5 # x6 # x7 # rest"
    unfolding Suc_le_length_iff by blast
  with n last show ?thesis
    by simp
qed

subsection \<open>Cloning settings\<close>

lemma set_rando_seed_valid: "set_rando_seed v w \<noteq> Inl InvalidSettingsException"
  by (simp add: set_rando_seed_def split: option.splits)

lemma get_rando_seed_valid: "get_rando_seed w \<noteq> Inl InvalidSettingsException"
  by (simp add: get_rando_seed_def split: option.splits)


text \<open>
  C1. When the gameflags of the settings object contain \<open>MYSTERY\<close>, the call raises
  \<open>InvalidSettingsException\<close>, whatever \<open>is_race_seed\<close> is: it returns, and what it returns
  is the exception.
\<close>

theorem mystery_settings_cannot_be_cloned:
  assumes "MYSTERY \<in> gameflags (heap w settings)"
  shows "configure_seed_from_settings L w settings is_race_seed
    = Some (Inl InvalidSettingsException)"
  using assms by (simp add: configure_seed_from_settings_def)

theorem mystery_settings_cannot_be_cloned_witness:
  "MYSTERY \<in> gameflags (heap demo_state 1) \<and>
   configure_seed_from_settings demo_lib demo_state 1 True = Some (Inl InvalidSettingsException) \<and>
   configure_seed_from_settings demo_lib demo_state 1 False = Some (Inl InvalidSettingsException)"
proof -
  have m: "MYSTERY \<in> gameflags (heap demo_state 1)"
    by (simp add: demo_state_def mystery_settings_def)
  from m mystery_settings_cannot_be_cloned [OF m, of demo_lib True]
    mystery_settings_cannot_be_cloned [OF m, of demo_lib False]
  show ?thesis by simp
qed

text \<open>The example library and state, run through the seed loop and the whole call.\<close>

lemma demo_random_seed:
  "get_random_seed demo_lib (store_settings r demo_state)
     = Inr (''ab'', (store_settings r demo_state)\<lparr>rng_pos := 2\<rparr>)"
  by (simp add: get_random_seed_def demo_lib_def demo_state_def store_settings_def
      random_choice_def bindE_def liftE_def)

lemma demo_new_seed_loop:
  "new_seed_loop demo_lib ''aa'' ''aa'' (store_settings r demo_state)
     = Some (Inr (''ab'', (store_settings r demo_state)\<lparr>rng_pos := 2\<rparr>))"
  by (simp add: new_seed_loop_again [OF demo_random_seed] new_seed_loop_done)


lemma demo_clone:
  "settings_after (configure_seed_from_settings demo_lib demo_state 0 is_race_seed) 0
     = Some (demo_settings\<lparr>seed := ''ab''\<rparr>)"
proof -
  have s0: "heap (store_settings 0 demo_state) 0 = demo_settings"
    "heap demo_state 0 = demo_settings"
    by (simp_all add: store_settings_def demo_state_def)
  have m: "MYSTERY \<notin> gameflags demo_settings" "seed demo_settings = ''aa''"
    by (simp_all add: demo_settings_def)
  have str: "str_nat 123456 = ''123456''"
    by (simp add: str_nat.simps)
  have run: "configure_seed_from_settings demo_lib demo_state 0 is_race_seed =
    Some (let w3 = set_seed 0 ''ab'' ((store_settings 0 demo_state)\<lparr>rng_pos := 2\<rparr>) in
      if is_race_seed then
        let nonce = str_nat (now_microsecond w3) in
        bindE (set_rando_seed (''ab'' @ nonce) w3) (\<lambda>w4.
        bindE (liftE (set_random_config demo_lib w4)) (\<lambda>w5.
        bindE (set_rando_seed ''ab'' w5) (\<lambda>w6.
        Inr (nonce, w6))))
      else
        bindE (liftE (set_random_config demo_lib w3)) (\<lambda>w4. Inr ('''', w4)))"
    by (simp add: configure_seed_from_settings_def s0 m demo_new_seed_loop)
  show ?thesis
    unfolding run
    by (cases is_race_seed)
      (simp_all add: settings_after_def set_rando_seed_def set_seed_def store_settings_def
        bindE_def liftE_def demo_lib_def demo_state_def str)
qed





text \<open>
  The loop returns at the first draw that differs from the old seed. It need not return
  at all: with the two names of the example library and the draws \<open>0, 1, 2, ...\<close> every
  seed drawn is \<open>ab\<close>, and settings with that seed are never cloned.
\<close>

lemma new_seed_loop_first_draw:
  assumes "get_random_seed L w = Inr (s, w')" and "s \<noteq> seed0"
  shows "new_seed_loop L seed0 seed0 w = Some (Inr (s, w'))"
  using assms by (simp add: new_seed_loop_again new_seed_loop_done)

lemma demo_random_seed_even:
  assumes "rng w = (\<lambda>i. i)" and "even (rng_pos w)"
  shows "get_random_seed demo_lib w = Inr (''ab'', w\<lparr>rng_pos := rng_pos w + 2\<rparr>)"
proof -
  from assms(2) have "rng_pos w mod 2 = 0" and "Suc (rng_pos w) mod 2 = 1"
    by (simp_all add: mod_Suc)
  then have "rng_pos w mod Suc (Suc 0) = 0" and "Suc (rng_pos w) mod Suc (Suc 0) = Suc 0"
    by (simp_all add: numeral_2_eq_2)
  with assms(1) show ?thesis
    by (simp add: get_random_seed_def demo_lib_def random_choice_def bindE_def liftE_def)
qed

lemma new_seed_loop_may_not_return:
  assumes "rng w = (\<lambda>i. i)" and "even (rng_pos w)"
  shows "new_seed_loop demo_lib ''ab'' ''ab'' w = None"
proof (rule ccontr)
  assume "new_seed_loop demo_lib ''ab'' ''ab'' w \<noteq> None"
  then obtain res where ret: "new_seed_loop demo_lib ''ab'' ''ab'' w = Some res"
    by auto
  have "\<not> (L = demo_lib \<and> seed0 = ''ab'' \<and> new_seed = ''ab'' \<and> rng w = (\<lambda>i. i) \<and>
      even (rng_pos w))"
    if "new_seed_loop L seed0 new_seed w = Some res" for L seed0 new_seed w
  proof (induction rule: new_seed_loop.raw_induct [OF _ that])
    case (1 loop L seed0 new_seed w res)
    note IH = "1"(1) and body = "1"(2)
    show ?case
    proof
      assume a: "L = demo_lib \<and> seed0 = ''ab'' \<and> new_seed = ''ab'' \<and> rng w = (\<lambda>i. i) \<and>
        even (rng_pos w)"
      let ?w' = "w\<lparr>rng_pos := rng_pos w + 2\<rparr>"
      from a have "get_random_seed demo_lib w = Inr (''ab'', ?w')"
        by (simp add: demo_random_seed_even)
      with a body have "loop demo_lib ''ab'' ''ab'' ?w' = Some res"
        by simp
      from IH [OF this] a show False
        by simp
    qed
  qed
  from this [OF ret] assms show False
    by simp
qed

lemma configure_seed_from_settings_may_not_return:
  assumes "rng w = (\<lambda>i. i)" and "even (rng_pos w)"
    and "MYSTERY \<notin> gameflags (heap w settings)" and "seed (heap w settings) = ''ab''"
  shows "configure_seed_from_settings demo_lib w settings is_race_seed = None"
proof -
  from assms(1,2) have "new_seed_loop demo_lib ''ab'' ''ab'' (store_settings settings w) = None"
    by (intro new_seed_loop_may_not_return) (simp_all add: store_settings_def)
  with assms(3,4) show ?thesis
    by (simp add: configure_seed_from_settings_def store_settings_def)
qed

subsection \<open>The web spoiler log\<close>

lemma dict_append_Inr:
  assumes "dict_append d key x = Inr d'"
  shows "dom d' = dom d" and "key' \<noteq> key \<Longrightarrow> d' key' = d key'"
    and "\<exists>xs. d key = Some xs \<and> d' key = Some (xs @ [x])"
  using assms by (auto simp: dict_append_def split: option.splits if_splits)

lemma dict_append_valid: "dict_append d key x \<noteq> Inl InvalidSettingsException"
  by (simp add: dict_append_def split: option.splits)

lemma lookup_valid: "lookup d key \<noteq> Inl InvalidSettingsException"
  by (simp add: lookup_def split: option.splits)

text \<open>A property that every turn of a loop keeps holds after the loop.\<close>

lemma for_each_invariant:
  assumes "for_each body xs d = Inr d'" and "P d"
    and "\<And>x d d'. body x d = Inr d' \<Longrightarrow> P d \<Longrightarrow> P d'"
  shows "P d'"
  using assms(1,2)
proof (induction xs arbitrary: d)
  case Nil
  then show ?case by simp
next
  case (Cons x xs)
  from Cons.prems(1) obtain d1 where
    "body x d = Inr d1" and "for_each body xs d1 = Inr d'"
    by (auto simp: bindE_eq_Inr)
  with Cons.IH [of d1] assms(3) [of x d d1] Cons.prems(2) show ?case
    by blast
qed

lemma for_each_valid:
  assumes "\<And>x d. body x d \<noteq> Inl InvalidSettingsException"
  shows "for_each body xs d \<noteq> Inl InvalidSettingsException"
proof (induction xs arbitrary: d)
  case Nil
  show ?case by simp
next
  case (Cons x xs)
  show ?case
    using assms [of x d] Cons.IH by (cases "body x d") (simp_all add: bindE_def)
qed

lemma dict_append_keeps:
  assumes "dict_append d key x = Inr d'" and "key \<noteq> ''objectives''" and "keeps d0 d"
  shows "keeps d0 d'"
  using dict_append_Inr(1) [OF assms(1)] dict_append_Inr(2) [OF assms(1), of "''objectives''"]
    assms(2,3)
  by (auto simp: keeps_def)

lemma character_entry_keeps:
  assumes "character_entry L config x d = Inr d'" and "keeps d0 d"
  shows "keeps d0 d'"
proof -
  from assms(1) obtain e where "dict_append d ''characters'' e = Inr d'"
    by (auto simp: character_entry_def bindE_eq_Inr Let_def)
  from dict_append_keeps [OF this _ assms(2)] show ?thesis by simp
qed

lemma key_item_entry_keeps:
  assumes "key_item_entry L x d = Inr d'" and "keeps d0 d"
  shows "keeps d0 d'"
proof -
  from assms(1) obtain e where "dict_append d ''key_items'' e = Inr d'"
    by (auto simp: key_item_entry_def)
  from dict_append_keeps [OF this _ assms(2)] show ?thesis by simp
qed

lemma boss_entry_keeps:
  assumes "boss_entry L config x d = Inr d'" and "keeps d0 d"
  shows "keeps d0 d'"
proof -
  from assms(1) obtain e where "dict_append d ''bosses'' e = Inr d'"
    by (auto simp: boss_entry_def bindE_eq_Inr)
  from dict_append_keeps [OF this _ assms(2)] show ?thesis by simp
qed

lemma sphere_entry_keeps:
  assumes "sphere_entry line d = Inr d'" and "keeps d0 d"
  shows "keeps d0 d'"
proof (cases "rgx_search line")
  case None
  with assms show ?thesis by (simp add: sphere_entry_def)
next
  case (Some m)
  with assms(1) have "dict_append d ''spheres'' (groupdict m) = Inr d'"
    by (simp add: sphere_entry_def)
  from dict_append_keeps [OF this _ assms(2)] show ?thesis by simp
qed

text \<open>The log that is returned has the keys and the objectives of the first step.\<close>

lemma get_web_spoiler_log_steps:
  assumes "get_web_spoiler_log L settings config = Inr d"
  obtains d1 where
    "(if BUCKET_LIST \<in> gameflags settings then
        objectives_loop (num_objectives (bucket_settings settings)) 0 (objectives config)
          empty_spoiler_log
      else Inr empty_spoiler_log) = Inr d1"
    and "keeps d1 d"
proof -
  from assms obtain d1 d2 d3 d4 spheres where
    s1: "(if BUCKET_LIST \<in> gameflags settings then
        objectives_loop (num_objectives (bucket_settings settings)) 0 (objectives config)
          empty_spoiler_log
      else Inr empty_spoiler_log) = Inr d1" and
    s2: "for_each (character_entry L config) (map fst (char_assign_dict config)) d1 = Inr d2" and
    s3: "for_each (key_item_entry L) (key_item_locations config) d2 = Inr d3" and
    s4: "for_each (boss_entry L config) (map fst (boss_assign_dict config)) d3 = Inr d4" and
    s5: "for_each sphere_entry (splitlines spheres) d4 = Inr d"
    unfolding get_web_spoiler_log_def bindE_eq_Inr by blast
  have k1: "keeps d1 d1" by (simp add: keeps_def)
  have k2: "keeps d1 d2"
    using s2 k1 character_entry_keeps by (rule for_each_invariant [where P = "keeps d1"])
  have k3: "keeps d1 d3"
    using s3 k2 key_item_entry_keeps by (rule for_each_invariant [where P = "keeps d1"])
  have k4: "keeps d1 d4"
    using s4 k3 boss_entry_keeps by (rule for_each_invariant [where P = "keeps d1"])
  have "keeps d1 d"
    using s5 k4 sphere_entry_keeps by (rule for_each_invariant [where P = "keeps d1"])
  with s1 that show thesis by blast
qed

lemma objectives_loop_dom:
  assumes "objectives_loop num_objs ind obs d = Inr d'"
  shows "dom d' = dom d"
  using assms
proof (induction obs arbitrary: ind d)
  case Nil
  then show ?case by simp
next
  case (Cons ob obs)
  show ?case
  proof (cases "int ind \<ge> num_objs")
    case True
    with Cons.prems show ?thesis by simp
  next
    case False
    with Cons.prems obtain d1 where
      a: "dict_append d ''objectives''
            [(''name'', Some (''Objective '' @ str_nat (ind + 1))), (''desc'', Some (desc ob))]
          = Inr d1" and
      b: "objectives_loop num_objs (Suc ind) obs d1 = Inr d'"
      by (auto simp: bindE_eq_Inr)
    from Cons.IH [OF b] dict_append_Inr(1) [OF a] show ?thesis by simp
  qed
qed

lemma dom_empty_spoiler_log:
  "dom empty_spoiler_log = {''characters'', ''key_items'', ''bosses'', ''objectives'', ''spheres''}"
  by (auto simp: empty_spoiler_log_def)

text \<open>
  When does the call return? The keys the loops iterate over are keys of their
  dictionaries, and the lists they append to are in the log, so what is left is the
  library and the twin boss: the call returns when the library's calls do and the data of
  the twin boss is there if a spot has it.
\<close>

lemma lookup_member:
  assumes "key \<in> set (map fst d)"
  shows "\<exists>v. lookup d key = Inr v \<and> (key, v) \<in> set d"
proof (cases "map_of d key")
  case None
  with assms show ?thesis by (simp add: map_of_eq_None_iff)
next
  case (Some v)
  then show ?thesis by (auto simp: lookup_def dest: map_of_SomeD)
qed

lemma dict_append_returns:
  assumes "key \<in> dom d"
  shows "\<exists>d'. dict_append d key x = Inr d' \<and> dom d' = dom d"
  using assms by (auto simp: dict_append_def)

lemma for_each_returns:
  assumes "P d"
    and "\<And>x d. x \<in> set xs \<Longrightarrow> P d \<Longrightarrow> \<exists>d'. body x d = Inr d' \<and> P d'"
  shows "\<exists>d'. for_each body xs d = Inr d' \<and> P d'"
  using assms
proof (induction xs arbitrary: d)
  case Nil
  then show ?case by simp
next
  case (Cons x xs)
  from Cons.prems(2) [of x d] Cons.prems(1) obtain d1 where
    step: "body x d = Inr d1" and p1: "P d1"
    by auto
  from Cons.IH [OF p1] Cons.prems(2) obtain d' where "for_each body xs d1 = Inr d'" and "P d'"
    by auto
  with step show ?case by (auto simp: bindE_def)
qed

lemma objectives_loop_returns:
  assumes "''objectives'' \<in> dom d"
  shows "\<exists>d'. objectives_loop num_objs ind obs d = Inr d' \<and> dom d' = dom d"
  using assms
proof (induction obs arbitrary: ind d)
  case Nil
  show ?case by simp
next
  case (Cons ob obs)
  show ?case
  proof (cases "int ind \<ge> num_objs")
    case True
    then show ?thesis by simp
  next
    case False
    from dict_append_returns [OF Cons.prems] obtain d1 where
      a: "dict_append d ''objectives''
            [(''name'', Some (''Objective '' @ str_nat (ind + 1))), (''desc'', Some (desc ob))]
          = Inr d1" and
      b: "dom d1 = dom d"
      by blast
    from b Cons.prems have "''objectives'' \<in> dom d1" by simp
    from Cons.IH [OF this, of "Suc ind"] a b False show ?thesis
      by (auto simp: bindE_def)
  qed
qed

lemma get_web_spoiler_log_returns:
  assumes chars: "\<And>ch. \<exists>r. get_character_assignment L config ch = Inr r"
    and proof_string: "\<exists>s. get_proof_string_from_settings_config L settings config = Inr s"
    and twin: "TWIN_BOSS \<in> snd ` set (boss_assign_dict config) \<Longrightarrow>
      \<exists>s. twin_boss_str config = Inr s"
  shows "\<exists>d. get_web_spoiler_log L settings config = Inr d"
proof -
  let ?P = "\<lambda>d :: spoiler. dom d = dom empty_spoiler_log"
  have keys: "''objectives'' \<in> dom d" "''characters'' \<in> dom d" "''key_items'' \<in> dom d"
    "''bosses'' \<in> dom d" "''spheres'' \<in> dom d" if "?P d" for d
    using that by (simp_all add: dom_empty_spoiler_log)
  have "\<exists>d1. (if BUCKET_LIST \<in> gameflags settings then
        objectives_loop (num_objectives (bucket_settings settings)) 0 (objectives config)
          empty_spoiler_log
      else Inr empty_spoiler_log) = Inr d1 \<and> ?P d1"
    using objectives_loop_returns [of empty_spoiler_log] keys(1) [of empty_spoiler_log]
    by simp
  then obtain d1 where s1: "(if BUCKET_LIST \<in> gameflags settings then
        objectives_loop (num_objectives (bucket_settings settings)) 0 (objectives config)
          empty_spoiler_log
      else Inr empty_spoiler_log) = Inr d1" and p1: "?P d1"
    by blast
  have "\<exists>d'. character_entry L config x d = Inr d' \<and> ?P d'"
    if "x \<in> set (map fst (char_assign_dict config))" and "?P d" for x d
  proof -
    from lookup_member [OF that(1)] obtain recruit where
      "lookup (char_assign_dict config) x = Inr recruit" by blast
    moreover from chars obtain r where
      "get_character_assignment L config (held_char recruit) = Inr r" by blast
    ultimately show ?thesis
      using dict_append_returns [OF keys(2) [OF that(2)]] that(2)
      by (simp add: character_entry_def bindE_def liftE_def)
  qed
  from for_each_returns [where P = ?P and body = "character_entry L config"
      and xs = "map fst (char_assign_dict config)", OF p1 this] obtain d2 where
    s2: "for_each (character_entry L config) (map fst (char_assign_dict config)) d1 = Inr d2"
    and p2: "?P d2"
    by blast
  have "\<exists>d'. key_item_entry L x d = Inr d' \<and> ?P d'" if "?P d" for x d
    using dict_append_returns [OF keys(3) [OF that]] that
    by (simp add: key_item_entry_def)
  from for_each_returns [where P = ?P and body = "key_item_entry L"
      and xs = "key_item_locations config", OF p2 this] obtain d3 where
    s3: "for_each (key_item_entry L) (key_item_locations config) d2 = Inr d3" and p3: "?P d3"
    by blast
  have "\<exists>d'. boss_entry L config x d = Inr d' \<and> ?P d'"
    if "x \<in> set (map fst (boss_assign_dict config))" and "?P d" for x d
  proof -
    from lookup_member [OF that(1)] obtain boss where
      b: "lookup (boss_assign_dict config) x = Inr boss" and
      m: "(x, boss) \<in> set (boss_assign_dict config)"
      by blast
    have "\<exists>s. (if boss = TWIN_BOSS then twin_boss_str config else Inr (str_boss L boss)) = Inr s"
    proof (cases "boss = TWIN_BOSS")
      case True
      with m have "TWIN_BOSS \<in> snd ` set (boss_assign_dict config)" by force
      with twin True show ?thesis by simp
    next
      case False
      then show ?thesis by simp
    qed
    with b show ?thesis
      using dict_append_returns [OF keys(4) [OF that(2)]] that(2)
      by (auto simp: boss_entry_def bindE_def)
  qed
  from for_each_returns [where P = ?P and body = "boss_entry L config"
      and xs = "map fst (boss_assign_dict config)", OF p3 this] obtain d4 where
    s4: "for_each (boss_entry L config) (map fst (boss_assign_dict config)) d3 = Inr d4"
    and p4: "?P d4"
    by blast
  from proof_string obtain spheres where
    s5: "get_proof_string_from_settings_config L settings config = Inr spheres" by blast
  have "\<exists>d'. sphere_entry line d = Inr d' \<and> ?P d'" if "?P d" for line d
    using dict_append_returns [OF keys(5) [OF that]] that
    by (cases "rgx_search line") (simp_all add: sphere_entry_def)
  from for_each_returns [where P = ?P and body = sphere_entry
      and xs = "splitlines spheres", OF p4 this] obtain d where
    "for_each sphere_entry (splitlines spheres) d4 = Inr d"
    by blast
  with s1 s2 s3 s4 s5 show ?thesis
    by (simp add: get_web_spoiler_log_def bindE_def liftE_def)
qed

text \<open>
  C4. The dictionary that \<open>get_web_spoiler_log\<close> returns has the five keys
  \<open>characters\<close>, \<open>key_items\<close>, \<open>bosses\<close>, \<open>objectives\<close> and \<open>spheres\<close>, and no other;
  each is mapped to a list (of entries, by the type of the log).
\<close>

theorem get_web_spoiler_log_keys:
  assumes "get_web_spoiler_log L settings config = Inr d"
  shows "dom d = {''characters'', ''key_items'', ''bosses'', ''objectives'', ''spheres''}"
proof -
  from assms obtain d1 where
    s1: "(if BUCKET_LIST \<in> gameflags settings then
        objectives_loop (num_objectives (bucket_settings settings)) 0 (objectives config)
          empty_spoiler_log
      else Inr empty_spoiler_log) = Inr d1" and
    k: "keeps d1 d"
    by (rule get_web_spoiler_log_steps)
  have "dom d1 = dom empty_spoiler_log"
  proof (cases "BUCKET_LIST \<in> gameflags settings")
    case True
    with s1 show ?thesis by (simp add: objectives_loop_dom)
  next
    case False
    with s1 show ?thesis by auto
  qed
  with k show ?thesis
    by (simp add: keeps_def dom_empty_spoiler_log)
qed

theorem get_web_spoiler_log_keys_witness:
  "\<exists>d. get_web_spoiler_log demo_lib demo_settings demo_config = Inr d \<and>
     dom d = {''characters'', ''key_items'', ''bosses'', ''objectives'', ''spheres''}"
proof -
  have "\<exists>d. get_web_spoiler_log demo_lib demo_settings demo_config = Inr d"
    by (simp add: get_web_spoiler_log_def demo_lib_def demo_settings_def demo_config_def
        bindE_def liftE_def empty_spoiler_log_def dict_append_def character_entry_def
        key_item_entry_def boss_entry_def lookup_def twin_boss_str_def sphere_entry_def
        splitlines_def linebreak_def match_at_def sphere_group_def orelse_def after_colon_def
        dot_plus_def re_space_def re_digit_def groupdict_def)
  then obtain d where ret: "get_web_spoiler_log demo_lib demo_settings demo_config = Inr d" ..
  from get_web_spoiler_log_keys [OF ret] ret show ?thesis by blast
qed

subsection \<open>The objectives of the spoiler log\<close>

lemma numbered_Nil: "numbered num_objs []"
  by (simp add: numbered_def)

lemma numbered_snoc:
  assumes "numbered num_objs xs" and "int (length xs) < num_objs"
  shows "numbered num_objs
    (xs @ [[(''name'', Some (''Objective '' @ str_nat (length xs + 1))), (''desc'', v)]])"
  using assms by (auto simp: numbered_def list_all_iff nth_append)

lemma objectives_loop_numbered:
  assumes "objectives_loop num_objs ind obs d = Inr d'"
    and "d ''objectives'' = Some xs" and "length xs = ind" and "numbered num_objs xs"
  shows "\<exists>ys. d' ''objectives'' = Some ys \<and> numbered num_objs ys"
  using assms
proof (induction obs arbitrary: ind d xs)
  case Nil
  then show ?case by simp
next
  case (Cons ob obs)
  show ?case
  proof (cases "int ind \<ge> num_objs")
    case True
    with Cons.prems show ?thesis by simp
  next
    case False
    let ?e = "[(''name'', Some (''Objective '' @ str_nat (ind + 1))), (''desc'', Some (desc ob))]"
    from False Cons.prems(1) obtain d1 where
      a: "dict_append d ''objectives'' ?e = Inr d1" and
      b: "objectives_loop num_objs (Suc ind) obs d1 = Inr d'"
      by (auto simp: bindE_eq_Inr)
    from dict_append_Inr(3) [OF a] Cons.prems(2) have d1: "d1 ''objectives'' = Some (xs @ [?e])"
      by simp
    from Cons.prems(3) have len: "length (xs @ [?e]) = Suc ind"
      by simp
    from numbered_snoc [OF Cons.prems(4), of "Some (desc ob)"] False Cons.prems(3)
    have "numbered num_objs (xs @ [?e])"
      by simp
    from Cons.IH [OF b d1 len this] show ?thesis .
  qed
qed

text \<open>
  C10, as the code has it. Without the \<open>BUCKET_LIST\<close> flag the \<open>objectives\<close> list of
  the returned log is empty. With the flag it has at most \<open>max 0 num_objectives\<close>
  entries, named \<open>Objective 1\<close>, \<open>Objective 2\<close>, ... in the order of the list.
\<close>

theorem objectives_bounded_and_numbered:
  assumes "get_web_spoiler_log L settings config = Inr d"
  shows "(if BUCKET_LIST \<in> gameflags settings then
      \<exists>objs. d ''objectives'' = Some objs \<and>
        int (length objs) \<le> max 0 (num_objectives (bucket_settings settings)) \<and>
        (\<forall>i < length objs.
           map_of (objs ! i) ''name'' = Some (Some (''Objective '' @ str_nat (i + 1))))
    else d ''objectives'' = Some [])"
proof -
  from assms obtain d1 where
    s1: "(if BUCKET_LIST \<in> gameflags settings then
        objectives_loop (num_objectives (bucket_settings settings)) 0 (objectives config)
          empty_spoiler_log
      else Inr empty_spoiler_log) = Inr d1" and
    k: "keeps d1 d"
    by (rule get_web_spoiler_log_steps)
  have e: "empty_spoiler_log ''objectives'' = Some []"
    by (simp add: empty_spoiler_log_def)
  show ?thesis
  proof (cases "BUCKET_LIST \<in> gameflags settings")
    case False
    with s1 k e show ?thesis by (auto simp: keeps_def)
  next
    case True
    with s1 have "objectives_loop (num_objectives (bucket_settings settings)) 0
      (objectives config) empty_spoiler_log = Inr d1"
      by simp
    from objectives_loop_numbered [OF this e _ numbered_Nil] obtain ys where
      "d1 ''objectives'' = Some ys" and
      "numbered (num_objectives (bucket_settings settings)) ys"
      by auto
    with k True show ?thesis
      by (auto simp: keeps_def numbered_def list_all_iff)
  qed
qed

theorem objectives_bounded_and_numbered_witness:
  "BUCKET_LIST \<in> gameflags demo_settings \<and>
   num_objectives (bucket_settings demo_settings) = 2 \<and>
   objectives_of (get_web_spoiler_log demo_lib demo_settings demo_config) =
     Some [[(''name'', Some ''Objective 1''), (''desc'', Some ''Defeat Magus'')],
           [(''name'', Some ''Objective 2''), (''desc'', Some ''Recruit Robo'')]]"
proof -
  have obj: "objectives_of (get_web_spoiler_log demo_lib demo_settings demo_config) =
     Some [[(''name'', Some ''Objective 1''), (''desc'', Some ''Defeat Magus'')],
           [(''name'', Some ''Objective 2''), (''desc'', Some ''Recruit Robo'')]]"
    by code_simp
  then obtain d where ret: "get_web_spoiler_log demo_lib demo_settings demo_config = Inr d"
    by (auto simp: objectives_of_def split: sum.splits)
  have flag: "BUCKET_LIST \<in> gameflags demo_settings"
    "num_objectives (bucket_settings demo_settings) = 2"
    by (simp_all add: demo_settings_def)
  from objectives_bounded_and_numbered [OF ret] flag obj show ?thesis
    by simp
qed

text \<open>
  C10, as stated, fails for a negative \<open>num_objectives\<close>: the list is empty, and its
  length \<open>0\<close> is not at most \<open>- 1\<close>.
\<close>

theorem objectives_negative_bound_counterexample:
  "BUCKET_LIST \<in> gameflags negative_settings \<and>
   num_objectives (bucket_settings negative_settings) = - 1 \<and>
   objectives_of (get_web_spoiler_log demo_lib negative_settings demo_config) = Some [] \<and>
   \<not> int (length ([] :: entry list)) \<le> num_objectives (bucket_settings negative_settings)"
proof -
  have "objectives_of (get_web_spoiler_log demo_lib negative_settings demo_config) = Some []"
    by code_simp
  then show ?thesis
    by (simp add: negative_settings_def demo_settings_def)
qed

subsection \<open>The inverted enumeration maps\<close>

lemma invert_dict_snoc: "invert_dict (d @ [(k, v)]) = (invert_dict d)(v \<mapsto> k)"
  by (simp add: invert_dict_def)

lemma invert_dict_Nil: "invert_dict [] = Map.empty"
  by (simp add: invert_dict_def)

text \<open>Looking an enumeration string up in the inverted dictionary gives its form value back.\<close>

lemma invert_dict_lookup:
  assumes "distinct (map snd d)" and "(form_value, enum_string) \<in> set d"
  shows "invert_dict d enum_string = Some form_value"
  using assms
proof (induction d rule: rev_induct)
  case Nil
  then show ?case by simp
next
  case (snoc x d)
  obtain k v where x: "x = (k, v)" by (cases x)
  show ?case
  proof (cases "(form_value, enum_string) = x")
    case True
    with x show ?thesis by (simp add: invert_dict_snoc)
  next
    case False
    with snoc.prems have mem: "(form_value, enum_string) \<in> set d" and dist: "distinct (map snd d)"
      by auto
    from mem have "enum_string \<in> snd ` set d" by force
    with snoc.prems(1) x have "v \<noteq> enum_string" by auto
    with snoc.IH [OF dist mem] x show ?thesis
      by (simp add: invert_dict_snoc)
  qed
qed

lemma invert_enums_Nil: "invert_enums [] = Map.empty"
  by (simp add: invert_enums_def)

lemma invert_enums_snoc:
  "invert_enums (em @ [(key, mapping)]) =
     (case mapping of
        EnumDict d \<Rightarrow> (invert_enums em)(key \<mapsto> invert_dict d)
      | EnumList l \<Rightarrow> invert_enums em)"
  by (cases mapping) (simp_all add: invert_enums_def)

lemma invert_enums_lookup:
  assumes "distinct (map fst em)"
  shows "invert_enums em key =
    (case map_of em key of
       Some (EnumDict d) \<Rightarrow> Some (invert_dict d)
     | Some (EnumList l) \<Rightarrow> None
     | None \<Rightarrow> None)"
  using assms
proof (induction em rule: rev_induct)
  case Nil
  show ?case by (simp add: invert_enums_Nil)
next
  case (snoc x em)
  obtain k mapping where x: "x = (k, mapping)" by (cases x)
  from snoc.prems x have dist: "distinct (map fst em)" and fresh: "map_of em k = None"
    by (auto simp: map_of_eq_None_iff)
  show ?case
  proof (cases "key = k")
    case True
    with fresh x snoc.IH [OF dist] show ?thesis
      by (simp add: invert_enums_snoc map_add_def split: enum_entry.splits)
  next
    case False
    with snoc.IH [OF dist] x show ?thesis
      by (simp add: invert_enums_snoc map_add_def split: enum_entry.splits option.splits)
  qed
qed

lemma enums_map_keys_distinct: "distinct (map fst (enums_map L))"
  by (simp add: enums_map_def)

text \<open>The two dictionaries of \<open>enums_map\<close>.\<close>

lemma enums_map_dict_keys:
  "{key. \<exists>d. map_of (enums_map L) key = Some (EnumDict d)} = {''gameflags'', ''roflags''}"
  by (auto simp: enums_map_def split: if_splits)

text \<open>
  C9. The keys of \<open>get_inv_enums_map\<close> are the keys of \<open>enums_map\<close> whose value is a
  dictionary. For such a key, when the enumeration strings of its dictionary are pairwise
  distinct, every entry of the dictionary is found back: the enumeration string is mapped
  to the form value.
\<close>

theorem get_inv_enums_map_inverts:
  "dom (get_inv_enums_map L) = {key. \<exists>d. map_of (enums_map L) key = Some (EnumDict d)} \<and>
   (map_of (enums_map L) key = Some (EnumDict d) \<and> distinct (map snd d) \<and>
    (form_value, enum_string) \<in> set d
    \<longrightarrow> (\<exists>m. get_inv_enums_map L key = Some m \<and> m enum_string = Some form_value))"
proof -
  note look = invert_enums_lookup [OF enums_map_keys_distinct]
  have "get_inv_enums_map L k \<noteq> None \<longleftrightarrow> (\<exists>d. map_of (enums_map L) k = Some (EnumDict d))"
    for k
  proof (cases "map_of (enums_map L) k")
    case None
    then show ?thesis by (simp add: get_inv_enums_map_def look)
  next
    case (Some mapping)
    then show ?thesis by (cases mapping) (simp_all add: get_inv_enums_map_def look)
  qed
  then have "dom (get_inv_enums_map L) = {key. \<exists>d. map_of (enums_map L) key = Some (EnumDict d)}"
    by (simp add: dom_def)
  moreover have "\<exists>m. get_inv_enums_map L key = Some m \<and> m enum_string = Some form_value"
    if "map_of (enums_map L) key = Some (EnumDict d)" and "distinct (map snd d)"
      and "(form_value, enum_string) \<in> set d"
    using that invert_dict_lookup [of d form_value enum_string]
    by (simp add: get_inv_enums_map_def look)
  ultimately show ?thesis by blast
qed

theorem get_inv_enums_map_inverts_witness:
  "dom (get_inv_enums_map demo_lib) = {''gameflags'', ''roflags''} \<and>
   (\<exists>m. get_inv_enums_map demo_lib ''roflags'' = Some m \<and>
      m ''ROFlags.PRESERVE_PARTS'' = Some ''legacy_boss_placement'')"
proof -
  let ?d = "[(''boss_spot_hp'', ''ROFlags.BOSS_SPOT_HP''),
             (''legacy_boss_placement'', ''ROFlags.PRESERVE_PARTS'')]"
  have a: "map_of (enums_map demo_lib) ''roflags'' = Some (EnumDict ?d)"
    by (simp add: enums_map_def demo_lib_def)
  have b: "distinct (map snd ?d)" by simp
  have c: "(''legacy_boss_placement'', ''ROFlags.PRESERVE_PARTS'') \<in> set ?d" by simp
  from get_inv_enums_map_inverts
    [of demo_lib "''roflags''" ?d "''legacy_boss_placement''" "''ROFlags.PRESERVE_PARTS''"]
    a b c enums_map_dict_keys [of demo_lib]
  show ?thesis by simp
qed

subsection \<open>Where \<open>InvalidSettingsException\<close> can come from\<close>

lemma configure_seed_from_settings_invalid:
  assumes "configure_seed_from_settings L w settings is_race_seed
    = Some (Inl InvalidSettingsException)"
  shows "MYSTERY \<in> gameflags (heap w settings)"
proof (rule ccontr)
  assume no: "MYSTERY \<notin> gameflags (heap w settings)"
  let ?seed0 = "seed (heap (store_settings settings w) settings)"
  show False
  proof (cases "new_seed_loop L ?seed0 ?seed0 (store_settings settings w)")
    case None
    with assms no show False
      by (simp add: configure_seed_from_settings_def Let_def)
  next
    case (Some res)
    from new_seed_loop_result [OF Some] have ok: "res \<noteq> Inl InvalidSettingsException"
      by simp
    show False
    proof (cases res)
      case (Inl e)
      with assms no Some ok show False
        by (simp add: configure_seed_from_settings_def Let_def)
    next
      case (Inr p)
      obtain new_seed w2 where p: "p = (new_seed, w2)" by (cases p)
      from assms no Some Inr p show False
        by (cases is_race_seed)
          (auto simp: configure_seed_from_settings_def Let_def bindE_eq_invalid
            set_rando_seed_valid liftE_valid)
    qed
  qed
qed

lemma convert_form_to_settings_valid:
  "convert_form_to_settings L w form \<noteq> Inl InvalidSettingsException"
  unfolding convert_form_to_settings_def
proof (rule bindE_valid [OF liftE_valid])
  fix s
  obtain r w1 where a: "alloc s w = (r, w1)" by (cases "alloc s w")
  have "bindE (get_random_seed L w1) (\<lambda>(sd, w2). Inr (r, set_seed r sd w2))
      \<noteq> Inl InvalidSettingsException"
    by (rule bindE_valid [OF get_random_seed_valid]) auto
  with a show "(let (r, w1) = alloc s w in
       if f_seed form = '''' then
         bindE (get_random_seed L w1) (\<lambda>(sd, w2). Inr (r, set_seed r sd w2))
       else Inr (r, set_seed r (f_seed form) w1)) \<noteq> Inl InvalidSettingsException"
    by simp
qed

lemma configure_seed_from_form_valid:
  "configure_seed_from_form L w form \<noteq> Inl InvalidSettingsException"
  unfolding configure_seed_from_form_def
  by (auto simp: bindE_eq_invalid convert_form_to_settings_valid Let_def get_rando_seed_valid
      set_rando_seed_valid liftE_valid)

lemma generate_rom_valid: "generate_rom L w \<noteq> Inl InvalidSettingsException"
  unfolding generate_rom_def
  by (auto simp: bindE_eq_invalid liftE_valid)

lemma get_seed_hash_valid: "get_seed_hash L w \<noteq> Inl InvalidSettingsException"
  unfolding get_seed_hash_def
  by (auto simp: bindE_eq_invalid generate_rom_valid)

lemma set_char_name_valid: "set_char_name i v s \<noteq> Inl InvalidSettingsException"
  by (simp add: set_char_name_def)

lemma apply_rom_form_valid: "apply_rom_form alnum form s \<noteq> Inl InvalidSettingsException"
  unfolding apply_rom_form_def Let_def
  by (intro bindE_valid set_char_name_valid) simp

lemma set_settings_and_config_valid:
  "set_settings_and_config alnum w settings config form \<noteq> Inl InvalidSettingsException"
  unfolding set_settings_and_config_def
  by (cases form) (auto simp: bindE_eq_invalid apply_rom_form_valid)

lemma get_rom_name_valid: "get_rom_name L w share_id \<noteq> Inl InvalidSettingsException"
  by (simp add: get_rom_name_def split: option.splits)

lemma get_base_rom_valid: "get_base_rom w \<noteq> Inl InvalidSettingsException"
  by (simp add: get_base_rom_def split: option.splits)

lemma get_spoiler_log_valid:
  "get_spoiler_log L w config settings hash_bytes \<noteq> Inl InvalidSettingsException"
  unfolding get_spoiler_log_def
  by (auto simp: bindE_eq_invalid get_base_rom_valid liftE_valid)

lemma get_json_spoiler_log_valid:
  "get_json_spoiler_log L w config settings hash_bytes \<noteq> Inl InvalidSettingsException"
  unfolding get_json_spoiler_log_def
  by (auto simp: bindE_eq_invalid get_base_rom_valid liftE_valid)

lemma get_share_details_valid:
  "get_share_details L w config settings hash_bytes \<noteq> Inl InvalidSettingsException"
  unfolding get_share_details_def
  by (auto simp: bindE_eq_invalid get_base_rom_valid liftE_valid Let_def)

lemma objectives_loop_valid:
  "objectives_loop num_objs ind obs d \<noteq> Inl InvalidSettingsException"
proof (induction obs arbitrary: ind d)
  case Nil
  show ?case by simp
next
  case (Cons ob obs)
  show ?case
    by (auto simp: bindE_eq_invalid dict_append_valid Cons.IH)
qed

lemma character_entry_valid:
  "character_entry L config x d \<noteq> Inl InvalidSettingsException"
  unfolding character_entry_def Let_def
  by (auto simp: bindE_eq_invalid lookup_valid liftE_valid dict_append_valid)

lemma key_item_entry_valid: "key_item_entry L x d \<noteq> Inl InvalidSettingsException"
  by (simp add: key_item_entry_def dict_append_valid)

lemma twin_boss_str_valid: "twin_boss_str config \<noteq> Inl InvalidSettingsException"
  unfolding twin_boss_str_def
  by (auto simp: bindE_eq_invalid lookup_valid split: list.splits)

lemma boss_entry_valid: "boss_entry L config x d \<noteq> Inl InvalidSettingsException"
  unfolding boss_entry_def
  by (auto simp: bindE_eq_invalid lookup_valid twin_boss_str_valid dict_append_valid)

lemma sphere_entry_valid: "sphere_entry line d \<noteq> Inl InvalidSettingsException"
  by (simp add: sphere_entry_def dict_append_valid split: option.splits)

lemma get_web_spoiler_log_valid:
  "get_web_spoiler_log L settings config \<noteq> Inl InvalidSettingsException"
  unfolding get_web_spoiler_log_def
  by (intro bindE_valid for_each_valid liftE_valid character_entry_valid key_item_entry_valid
      boss_entry_valid sphere_entry_valid)
    (simp add: objectives_loop_valid)

text \<open>
  C7. \<open>configure_seed_from_settings\<close> raises \<open>InvalidSettingsException\<close> only when the
  gameflags of the settings contain \<open>MYSTERY\<close>, and no other operation raises it. The
  operations not listed return a value that is no exception (\<open>clamp\<close>,
  \<open>get_character_name\<close>, \<open>get_inv_enums_map\<close>, \<open>get_enums_map\<close>, \<open>set_seed_hash\<close>,
  \<open>get_settings\<close>, \<open>get_config\<close>) or hand on what the library returns (the JSON
  encodings, the objective hints and the presets).
\<close>

theorem invalid_settings_only_from_mystery:
  "(configure_seed_from_settings L w settings is_race_seed = Some (Inl InvalidSettingsException)
      \<longrightarrow> MYSTERY \<in> gameflags (heap w settings)) \<and>
   configure_seed_from_form L w gen_form \<noteq> Inl InvalidSettingsException \<and>
   generate_rom L w \<noteq> Inl InvalidSettingsException \<and>
   get_seed_hash L w \<noteq> Inl InvalidSettingsException \<and>
   set_settings_and_config alnum w settings config rom_form \<noteq> Inl InvalidSettingsException \<and>
   get_rom_name L w share_id \<noteq> Inl InvalidSettingsException \<and>
   get_web_spoiler_log L s config \<noteq> Inl InvalidSettingsException \<and>
   get_random_seed L w \<noteq> Inl InvalidSettingsException \<and>
   get_base_rom w \<noteq> Inl InvalidSettingsException \<and>
   get_spoiler_log L w config settings hash_bytes \<noteq> Inl InvalidSettingsException \<and>
   get_json_spoiler_log L w config settings hash_bytes \<noteq> Inl InvalidSettingsException \<and>
   get_share_details L w config settings hash_bytes \<noteq> Inl InvalidSettingsException"
  using configure_seed_from_settings_invalid [of L w settings is_race_seed]
  by (simp add: configure_seed_from_form_valid generate_rom_valid get_seed_hash_valid
      set_settings_and_config_valid get_rom_name_valid get_web_spoiler_log_valid
      get_random_seed_valid get_base_rom_valid get_spoiler_log_valid
      get_json_spoiler_log_valid get_share_details_valid)

theorem invalid_settings_only_from_mystery_witness:
  "configure_seed_from_settings demo_lib demo_state 1 False
     = Some (Inl InvalidSettingsException) \<and>
   MYSTERY \<in> gameflags (heap demo_state 1) \<and>
   settings_after (configure_seed_from_settings demo_lib demo_state 0 False) 0
     = Some (demo_settings\<lparr>seed := ''ab''\<rparr>) \<and>
   MYSTERY \<notin> gameflags (heap demo_state 0)"
proof -
  have raised: "configure_seed_from_settings demo_lib demo_state 1 False
     = Some (Inl InvalidSettingsException)"
    by (simp add: configure_seed_from_settings_def demo_state_def mystery_settings_def)
  from invalid_settings_only_from_mystery [of demo_lib demo_state 1 False] raised
  have "MYSTERY \<in> gameflags (heap demo_state 1)"
    by simp
  moreover have "MYSTERY \<notin> gameflags (heap demo_state 0)"
    by (simp add: demo_state_def demo_settings_def)
  ultimately show ?thesis
    using raised by (simp add: demo_clone)
qed

end
